theory Spec2Isabelle
  imports Main "HOL-Library.AList"
begin

section \<open>Data model of \<^verbatim>\<open>UserStorageService\<close> (src/scripts/backend/user-storage.js)\<close>

text \<open>
  The service keeps five JSON files: users (an object keyed by the lower-cased address),
  promises (an array), delete requests (an array), sessions (an object keyed by session
  id) and the global statistics (one object). Every method reads whole files, changes the
  parsed value in memory and writes whole files back.

  Conventions of the embedding:
  \<^item> JavaScript numbers that the code only ever adds to, subtracts from and floors
    (counters, reputation, timestamps) are \<open>int\<close>.
  \<^item> A JSON object used as a dictionary is an association list in the order
    \<^verbatim>\<open>Object.values\<close> enumerates it; assigning to a key replaces the value in place
    when the key is there and appends the pair otherwise (\<open>AList.update\<close>). Two kinds of
    keys behave differently in JavaScript and are outside this picture: keys that are array
    indices, which \<^verbatim>\<open>Object.values\<close> enumerates first, and the names a JSON object
    inherits from \<^verbatim>\<open>Object.prototype\<close>, which a lookup finds although they are not
    stored (see \<open>inheritedName\<close> and \<open>getUser\<close>).
  \<^item> A key that a JSON object may lack is an \<open>option\<close> field. A request body that is
    \<^verbatim>\<open>null\<close> is \<open>None\<close> where the code goes on to write before it fails
    (\<open>updatePromise\<close>); in \<open>createPromise\<close> a \<^verbatim>\<open>null\<close> body, like an address that is
    no string, fails before anything is written, as the absent address does.
  \<^item> \<^verbatim>\<open>Date.now()\<close> and the random suffix of generated ids are inputs of each
    operation (\<open>now\<close>, \<open>gid\<close>); all clock readings inside one operation are taken to
    be equal.
  \<^item> File reads and writes are taken to succeed. The errors of the model are the ones the
    code itself raises: the three \<^verbatim>\<open>not found\<close> errors and the \<^verbatim>\<open>TypeError\<close> of
    calling \<^verbatim>\<open>toLowerCase\<close> on an absent address or of reading
    \<^verbatim>\<open>updates.status\<close> from \<^verbatim>\<open>null\<close>.
  \<^item> An operation returns the store it leaves behind together with its outcome, so a
    store written before an error was raised stays visible.
  \<^item> Calls are taken one at a time: each asynchronous method runs to its end before the
    next one starts.
\<close>

record user =
  address :: string
  reputation :: int
  completedPromises :: int
  failedPromises :: int
  totalPromises :: int
  streak :: int
  level :: int
  joinedAt :: int
  lastActive :: int

text \<open>A stored promise. \<open>id\<close>, \<open>address\<close>, \<open>createdAt\<close> and \<open>updatedAt\<close> are present in
  every promise that \<open>createPromise\<close> stores; the other keys come from the caller.\<close>

record promise =
  p_id :: string
  p_address :: string
  p_message :: "string option"
  p_deadline :: "int option"
  p_status :: "string option"
  p_proof :: "string option"
  p_category :: "string option"
  p_difficulty :: "string option"
  p_createdAt :: int
  p_updatedAt :: int
  p_adminAdjustedProgress :: "int option"
  p_updaterAddress :: "string option"

text \<open>The JSON body a caller sends: \<open>promiseData\<close> of \<open>createPromise\<close> and \<open>updates\<close> of
  \<open>updatePromise\<close>. Any key may be absent.\<close>

record promiseFields =
  f_id :: "string option"
  f_address :: "string option"
  f_message :: "string option"
  f_deadline :: "int option"
  f_status :: "string option"
  f_proof :: "string option"
  f_category :: "string option"
  f_difficulty :: "string option"
  f_createdAt :: "int option"
  f_updatedAt :: "int option"
  f_adminAdjustedProgress :: "int option"
  f_updaterAddress :: "string option"

text \<open>The \<open>updates\<close> object handed to \<open>updateUser\<close>.\<close>

record userUpdates =
  u_reputation :: "int option"
  u_completedPromises :: "int option"
  u_failedPromises :: "int option"
  u_totalPromises :: "int option"
  u_streak :: "int option"
  u_level :: "int option"

record deleteRequest =
  r_id :: string
  promiseId :: string
  requesterAddress :: string
  r_status :: string
  requestedAt :: int
  processedBy :: "string option"
  processedAt :: "int option"

record session =
  ip :: string
  firstVisit :: int
  s_lastActive :: int

text \<open>\<open>completionRate\<close> and \<open>averageReputation\<close> are doubles cut to nine decimals by
  \<^verbatim>\<open>toFixed(9)\<close>; the model keeps them as the integer number of billionths, rounded
  half up from the exact quotient. The code divides and multiplies in double precision
  first, so its value can differ from the model's by one billionth where the exact quotient
  lies on or next to a rounding boundary. No statement below depends on the digits of the
  two rates.\<close>

record globalStats =
  totalUsers :: int
  g_totalPromises :: int
  completionRate :: int
  averageReputation :: int
  topPerformer :: "string option"
  lastUpdated :: "int option"

record store =
  users :: "(string \<times> user) list"
  promises :: "promise list"
  stats :: globalStats
  deleteRequests :: "deleteRequest list"
  sessions :: "(string \<times> session) list"

datatype error =
    TypeError
  | UserNotFound string
  | PromiseNotFound string
  | DeleteRequestNotFound string

section \<open>JavaScript helpers\<close>

definition lowerChar :: "char \<Rightarrow> char" where
  "lowerChar c =
     (case map_of (zip ''ABCDEFGHIJKLMNOPQRSTUVWXYZ'' ''abcdefghijklmnopqrstuvwxyz'') c of
        Some l \<Rightarrow> l
      | None \<Rightarrow> c)"

text \<open>\<^verbatim>\<open>String.prototype.toLowerCase\<close> on ASCII text: the letters A to Z are folded,
  every other character (also a letter outside ASCII, which JavaScript would fold) is kept.\<close>

definition toLowerCase :: "string \<Rightarrow> string" where
  "toLowerCase s = map lowerChar s"

text \<open>\<^verbatim>\<open>Array.prototype.findIndex\<close>: the first index whose element satisfies the test;
  \<open>None\<close> stands for \<open>-1\<close>.\<close>

fun findIndex :: "('a \<Rightarrow> bool) \<Rightarrow> 'a list \<Rightarrow> nat option" where
  "findIndex P [] = None"
| "findIndex P (x # xs) =
     (if P x then Some 0 else map_option Suc (findIndex P xs))"

text \<open>Object spread \<^verbatim>\<open>{...old, ...new}\<close> on one key: the later object wins when it has
  the key.\<close>

definition spread :: "'a \<Rightarrow> 'a option \<Rightarrow> 'a" where
  "spread old new = (case new of Some v \<Rightarrow> v | None \<Rightarrow> old)"

definition spreadOpt :: "'a option \<Rightarrow> 'a option \<Rightarrow> 'a option" where
  "spreadOpt old new = (case new of Some v \<Rightarrow> Some v | None \<Rightarrow> old)"

text \<open>\<^verbatim>\<open>Number.parseFloat((a / b).toFixed(9))\<close> in billionths, for \<open>b > 0\<close>.\<close>

definition toFixed9 :: "int \<Rightarrow> int \<Rightarrow> int" where
  "toFixed9 a b = (2 * a * 1000000000 + b) div (2 * b)"

section \<open>Global statistics\<close>

text \<open>The reducer of \<open>topPerformer\<close>:
  \<^verbatim>\<open>(top, user) => (user.reputation > (top?.reputation || 0) ? user : top)\<close>, started
  from \<^verbatim>\<open>null\<close>.\<close>

definition topStep :: "user option \<Rightarrow> user \<Rightarrow> user option" where
  "topStep top' usr =
     (if reputation usr > (case top' of None \<Rightarrow> 0 | Some t \<Rightarrow> reputation t)
      then Some usr else top')"

definition topUser :: "user list \<Rightarrow> user option" where
  "topUser userArray = foldl topStep None userArray"

text \<open>\<^verbatim>\<open>topPerformer?.address || null\<close>: an empty address is falsy.\<close>

definition topPerformerOf :: "user list \<Rightarrow> string option" where
  "topPerformerOf userArray =
     (case topUser userArray of
        None \<Rightarrow> None
      | Some t \<Rightarrow> if address t = [] then None else Some (address t))"

definition computeStats :: "store \<Rightarrow> int \<Rightarrow> globalStats" where
  "computeStats s now =
     (let userArray = map snd (users s);
          nUsers = int (length (sessions s));
          nPromises = int (length (promises s));
          nCompleted = int (length (filter (\<lambda>p. p_status p = Some ''completed'') (promises s)));
          totalReputation = foldl (\<lambda>acc usr. acc + reputation usr) 0 userArray
      in \<lparr> totalUsers = nUsers,
           g_totalPromises = nPromises,
           completionRate = (if nPromises > 0 then toFixed9 (nCompleted * 100) nPromises else 0),
           averageReputation = (if nUsers > 0 then toFixed9 totalReputation nUsers else 0),
           topPerformer = topPerformerOf userArray,
           lastUpdated = Some now \<rparr>)"

definition updateGlobalStats :: "store \<Rightarrow> int \<Rightarrow> store" where
  "updateGlobalStats s now = s\<lparr> stats := computeStats s now \<rparr>"

section \<open>Users\<close>

text \<open>The members of \<^verbatim>\<open>Object.prototype\<close> whose names are spelled in lower case, the only
  ones a lower-cased address can name: \<^verbatim>\<open>users["constructor"]\<close> and
  \<^verbatim>\<open>users["__proto__"]\<close> are objects, hence truthy, also when the users file has no
  such key.\<close>

definition inheritedName :: "string \<Rightarrow> bool" where
  "inheritedName key = (key = ''constructor'' \<or> key = ''__proto__'')"

text \<open>\<^verbatim>\<open>users[address.toLowerCase()] || null\<close> in \<open>getUser\<close> and
  \<^verbatim>\<open>!users[address.toLowerCase()]\<close> in \<open>updateUser\<close> are modelled as the lookup of a
  stored key. They agree with the code for every key that is stored and for every key that
  is not an \<open>inheritedName\<close>. For an inherited name that is not stored the code finds the
  inherited object instead of nothing: \<open>createPromise\<close> then skips \<open>createUser\<close>, reads
  \<^verbatim>\<open>undefined\<close> counters from it and \<open>updateUser\<close> writes a record without address,
  reputation or level. User records have no place for that; the statements below that look
  up an address not known to be stored exclude the two names.\<close>

definition getUser :: "store \<Rightarrow> string \<Rightarrow> user option" where
  "getUser s addr = map_of (users s) (toLowerCase addr)"

definition newUser :: "string \<Rightarrow> int \<Rightarrow> user" where
  "newUser addr now =
     \<lparr> address = addr, reputation = 0, completedPromises = 0, failedPromises = 0,
       totalPromises = 0, streak = 0, level = 1, joinedAt = now, lastActive = now \<rparr>"

definition createUser :: "store \<Rightarrow> string \<Rightarrow> int \<Rightarrow> store \<times> user" where
  "createUser s addr now =
     (let s1 = s\<lparr> users := AList.update (toLowerCase addr) (newUser addr now) (users s) \<rparr>
      in (updateGlobalStats s1 now, newUser addr now))"

definition applyUpdates :: "user \<Rightarrow> userUpdates \<Rightarrow> int \<Rightarrow> user" where
  "applyUpdates usr upd now =
     usr\<lparr> reputation := spread (reputation usr) (u_reputation upd),
          completedPromises := spread (completedPromises usr) (u_completedPromises upd),
          failedPromises := spread (failedPromises usr) (u_failedPromises upd),
          totalPromises := spread (totalPromises usr) (u_totalPromises upd),
          streak := spread (streak usr) (u_streak upd),
          level := spread (level usr) (u_level upd),
          lastActive := now \<rparr>"

definition updateUser :: "store \<Rightarrow> string \<Rightarrow> userUpdates \<Rightarrow> int \<Rightarrow> store \<times> (error + user)" where
  "updateUser s addr upd now =
     (case map_of (users s) (toLowerCase addr) of
        None \<Rightarrow> (s, Inl (UserNotFound addr))
      | Some usr \<Rightarrow>
          (let usr' = applyUpdates usr upd now
           in (s\<lparr> users := AList.update (toLowerCase addr) usr' (users s) \<rparr>, Inr usr')))"

definition noUpdates :: userUpdates where
  "noUpdates = \<lparr> u_reputation = None, u_completedPromises = None, u_failedPromises = None,
                 u_totalPromises = None, u_streak = None, u_level = None \<rparr>"

text \<open>The reputation change and the counters that \<open>updateUserReputation\<close> sets before it
  adds \<open>reputation\<close> and \<open>level\<close>.\<close>

definition outcomeUpdates :: "user \<Rightarrow> string \<Rightarrow> int \<times> userUpdates" where
  "outcomeUpdates usr status =
     (if status = ''completed'' then
        (10, noUpdates\<lparr> u_completedPromises := Some (completedPromises usr + 1),
                        u_streak := Some (streak usr + 1) \<rparr>)
      else if status = ''failed'' then
        (- 5, noUpdates\<lparr> u_failedPromises := Some (failedPromises usr + 1),
                         u_streak := Some 0 \<rparr>)
      else (0, noUpdates))"

definition reputationUpdates :: "user \<Rightarrow> string \<Rightarrow> userUpdates" where
  "reputationUpdates usr status =
     (let (reputationChange, upd) = outcomeUpdates usr status;
          rep = max 0 (reputation usr + reputationChange)
      in upd\<lparr> u_reputation := Some rep, u_level := Some (rep div 50 + 1) \<rparr>)"

text \<open>\<open>updateUserReputation\<close> returns nothing and swallows every error.\<close>

definition updateUserReputation :: "store \<Rightarrow> string \<Rightarrow> string \<Rightarrow> int \<Rightarrow> store" where
  "updateUserReputation s addr status now =
     (case getUser s addr of
        None \<Rightarrow> s
      | Some usr \<Rightarrow> fst (updateUser s addr (reputationUpdates usr status) now))"

section \<open>Promises\<close>

definition newPromise :: "promiseFields \<Rightarrow> string \<Rightarrow> int \<Rightarrow> string \<Rightarrow> promise" where
  "newPromise promiseData addr now gid =
     \<lparr> p_id = spread gid (f_id promiseData),
       p_address = addr,
       p_message = f_message promiseData,
       p_deadline = f_deadline promiseData,
       p_status = f_status promiseData,
       p_proof = f_proof promiseData,
       p_category = f_category promiseData,
       p_difficulty = f_difficulty promiseData,
       p_createdAt = spread now (f_createdAt promiseData),
       p_updatedAt = spread now (f_updatedAt promiseData),
       p_adminAdjustedProgress = f_adminAdjustedProgress promiseData,
       p_updaterAddress = f_updaterAddress promiseData \<rparr>"

text \<open>With an absent address \<open>getUser\<close> catches the \<^verbatim>\<open>TypeError\<close> and answers
  \<^verbatim>\<open>null\<close>, and \<open>createUser\<close> raises it again before writing anything.\<close>

definition createPromise ::
  "store \<Rightarrow> promiseFields \<Rightarrow> int \<Rightarrow> string \<Rightarrow> store \<times> (error + promise)" where
  "createPromise s promiseData now gid =
     (case f_address promiseData of
        None \<Rightarrow> (s, Inl TypeError)
      | Some addr \<Rightarrow>
          (let promises0 = promises s;
               (s1, usr) = (case getUser s addr of
                              Some u \<Rightarrow> (s, u)
                            | None \<Rightarrow> createUser s addr now);
               np = newPromise promiseData addr now gid;
               s2 = s1\<lparr> promises := promises0 @ [np] \<rparr>;
               (s3, r) = updateUser s2 addr
                           (noUpdates\<lparr> u_totalPromises := Some (totalPromises usr + 1) \<rparr>) now
           in (case r of
                 Inl e \<Rightarrow> (s3, Inl e)
               | Inr _ \<Rightarrow> (updateGlobalStats s3 now, Inr np))))"

definition mergePromise :: "promise \<Rightarrow> promiseFields \<Rightarrow> int \<Rightarrow> promise" where
  "mergePromise old updates now =
     \<lparr> p_id = spread (p_id old) (f_id updates),
       p_address = spread (p_address old) (f_address updates),
       p_message = spreadOpt (p_message old) (f_message updates),
       p_deadline = spreadOpt (p_deadline old) (f_deadline updates),
       p_status = spreadOpt (p_status old) (f_status updates),
       p_proof = spreadOpt (p_proof old) (f_proof updates),
       p_category = spreadOpt (p_category old) (f_category updates),
       p_difficulty = spreadOpt (p_difficulty old) (f_difficulty updates),
       p_createdAt = spread (p_createdAt old) (f_createdAt updates),
       p_updatedAt = now,
       p_adminAdjustedProgress =
         spreadOpt (p_adminAdjustedProgress old) (f_adminAdjustedProgress updates),
       p_updaterAddress = spreadOpt (p_updaterAddress old) (f_updaterAddress updates) \<rparr>"

text \<open>\<open>updates\<close> is the parsed body of \<^verbatim>\<open>PUT /promises/:id\<close>; \<open>None\<close> is the body
  \<^verbatim>\<open>null\<close>. Spreading \<^verbatim>\<open>null\<close> adds nothing, so the promise is saved with its new
  \<open>updatedAt\<close> only, and reading \<^verbatim>\<open>updates.status\<close> then raises a \<^verbatim>\<open>TypeError\<close>
  after the write. (A body that is a number, a string or an array raises nothing and carries
  none of the keys of a promise: it behaves as the object without keys.) The reputation is
  touched under \<^verbatim>\<open>updates.status && updates.status !== oldPromise.status\<close>: the status
  is given, is not the empty string, and differs from the stored one.\<close>

definition updatePromise ::
  "store \<Rightarrow> string \<Rightarrow> promiseFields option \<Rightarrow> int \<Rightarrow> store \<times> (error + promise)" where
  "updatePromise s pid updates now =
     (case findIndex (\<lambda>p. p_id p = pid) (promises s) of
        None \<Rightarrow> (s, Inl (PromiseNotFound pid))
      | Some i \<Rightarrow>
          (let oldPromise = promises s ! i
           in case updates of
                None \<Rightarrow>
                  (s\<lparr> promises := (promises s)[i := oldPromise\<lparr> p_updatedAt := now \<rparr>] \<rparr>,
                   Inl TypeError)
              | Some body \<Rightarrow>
                  (let new = mergePromise oldPromise body now;
                       s1 = s\<lparr> promises := (promises s)[i := new] \<rparr>;
                       s2 = (case f_status body of
                               None \<Rightarrow> s1
                             | Some st \<Rightarrow>
                                 if st \<noteq> [] \<and> Some st \<noteq> p_status oldPromise
                                 then updateUserReputation s1 (p_address oldPromise) st now
                                 else s1)
                   in (updateGlobalStats s2 now, Inr new))))"

definition deletePromise :: "store \<Rightarrow> string \<Rightarrow> int \<Rightarrow> store \<times> (error + unit)" where
  "deletePromise s pid now =
     (case find (\<lambda>p. p_id p = pid) (promises s) of
        None \<Rightarrow> (s, Inl (PromiseNotFound pid))
      | Some promiseToDelete \<Rightarrow>
          (let s1 = s\<lparr> promises := filter (\<lambda>p. p_id p \<noteq> pid) (promises s) \<rparr>;
               (s2, r) = (case getUser s1 (p_address promiseToDelete) of
                            None \<Rightarrow> (s1, Inr ())
                          | Some usr \<Rightarrow>
                              (case updateUser s1 (p_address promiseToDelete)
                                      (noUpdates\<lparr> u_totalPromises :=
                                          Some (max 0 (totalPromises usr - 1)) \<rparr>) now of
                                 (s', Inl e) \<Rightarrow> (s', Inl e)
                               | (s', Inr _) \<Rightarrow> (s', Inr ())))
           in (case r of
                 Inl e \<Rightarrow> (s2, Inl e)
               | Inr _ \<Rightarrow> (updateGlobalStats s2 now, Inr ()))))"

section \<open>Delete requests\<close>

definition isPendingFor :: "string \<Rightarrow> deleteRequest \<Rightarrow> bool" where
  "isPendingFor pid req = (promiseId req = pid \<and> r_status req = ''pending'')"

definition addDeleteRequest ::
  "store \<Rightarrow> string \<Rightarrow> string \<Rightarrow> int \<Rightarrow> string \<Rightarrow> store \<times> deleteRequest" where
  "addDeleteRequest s pid requester now gid =
     (case find (isPendingFor pid) (deleteRequests s) of
        Some existingRequest \<Rightarrow> (s, existingRequest)
      | None \<Rightarrow>
          (let newRequest = \<lparr> r_id = gid, promiseId = pid, requesterAddress = requester,
                              r_status = ''pending'', requestedAt = now,
                              processedBy = None, processedAt = None \<rparr>
           in (s\<lparr> deleteRequests := deleteRequests s @ [newRequest] \<rparr>, newRequest)))"

definition updateDeleteRequestStatus ::
  "store \<Rightarrow> string \<Rightarrow> string \<Rightarrow> string \<Rightarrow> int \<Rightarrow> store \<times> (error + deleteRequest)" where
  "updateDeleteRequestStatus s requestId status adminAddress now =
     (case findIndex (\<lambda>req. r_id req = requestId) (deleteRequests s) of
        None \<Rightarrow> (s, Inl (DeleteRequestNotFound requestId))
      | Some i \<Rightarrow>
          (let req = (deleteRequests s ! i)\<lparr> r_status := status,
                                             processedBy := Some adminAddress,
                                             processedAt := Some now \<rparr>;
               s1 = s\<lparr> deleteRequests := (deleteRequests s)[i := req] \<rparr>
           in if status = ''approved''
              then (case deletePromise s1 (promiseId req) now of
                      (s2, Inl e) \<Rightarrow> (s2, Inl e)
                    | (s2, Inr _) \<Rightarrow> (s2, Inr req))
              else (s1, Inr req)))"

section \<open>Sessions\<close>

text \<open>\<^verbatim>\<open>!sessions[sessionId]\<close> is modelled as the lookup of a stored key, as in
  \<open>getUser\<close>. Session ids are not lower-cased, so in the code a session id that names any
  member of \<^verbatim>\<open>Object.prototype\<close> (\<^verbatim>\<open>constructor\<close>, \<^verbatim>\<open>toString\<close>, ...) is found
  there and never recorded. No statement below depends on the sessions.\<close>

definition recordSession :: "store \<Rightarrow> string \<Rightarrow> string \<Rightarrow> int \<Rightarrow> store" where
  "recordSession s sessionId ipAddress now =
     (case map_of (sessions s) sessionId of
        None \<Rightarrow>
          updateGlobalStats
            (s\<lparr> sessions := AList.update sessionId
                   \<lparr> ip = ipAddress, firstVisit = now, s_lastActive = now \<rparr> (sessions s) \<rparr>)
            now
      | Some ses \<Rightarrow>
          s\<lparr> sessions := AList.update sessionId (ses\<lparr> s_lastActive := now \<rparr>) (sessions s) \<rparr>)"

section \<open>The service as the two HTTP servers drive it\<close>

text \<open>\<open>initializeStorage\<close> on an empty data directory, followed by its call of
  \<open>updateGlobalStats\<close>.\<close>

definition initialStore :: "int \<Rightarrow> store" where
  "initialStore now =
     updateGlobalStats
       \<lparr> users = [], promises = [],
         stats = \<lparr> totalUsers = 0, g_totalPromises = 0, completionRate = 0,
                   averageReputation = 0, topPerformer = None, lastUpdated = None \<rparr>,
         deleteRequests = [], sessions = [] \<rparr> now"

text \<open>The calls the routes of main-backend-server.js and of the admin server make:
  \<^verbatim>\<open>POST /promises\<close>, \<^verbatim>\<open>PUT /promises/:id\<close> (and the admin's progress update),
  \<^verbatim>\<open>POST /delete-requests\<close>, \<^verbatim>\<open>POST /admin/approve-delete\<close>,
  \<^verbatim>\<open>POST /admin/reject-delete\<close> and \<^verbatim>\<open>POST /record-session\<close>.\<close>

datatype operation =
    CreatePromise promiseFields int string
  | UpdatePromise string "promiseFields option" int
  | AddDeleteRequest string string int string
  | ApproveDelete string string int
  | RejectDelete string string int
  | RecordSession string string int

fun step :: "store \<Rightarrow> operation \<Rightarrow> store" where
  "step s (CreatePromise promiseData now gid) = fst (createPromise s promiseData now gid)"
| "step s (UpdatePromise pid updates now) = fst (updatePromise s pid updates now)"
| "step s (AddDeleteRequest pid requester now gid) = fst (addDeleteRequest s pid requester now gid)"
| "step s (ApproveDelete requestId adminAddress now) =
     fst (updateDeleteRequestStatus s requestId ''approved'' adminAddress now)"
| "step s (RejectDelete requestId adminAddress now) =
     fst (updateDeleteRequestStatus s requestId ''rejected'' adminAddress now)"
| "step s (RecordSession sessionId ipAddress now) = recordSession s sessionId ipAddress now"

definition run :: "store \<Rightarrow> operation list \<Rightarrow> store" where
  "run s ops = foldl step s ops"

section \<open>Properties of stores\<close>

text \<open>A user record whose reputation is not negative and whose level is the one the code
  derives from the reputation.\<close>

definition userInv :: "user \<Rightarrow> bool" where
  "userInv usr = (0 \<le> reputation usr \<and> level usr = reputation usr div 50 + 1)"

definition usersInv :: "store \<Rightarrow> bool" where
  "usersInv s = (\<forall>(k, usr) \<in> set (users s). userInv usr)"

text \<open>The delete requests that are pending for a promise id, and the stores in which every
  promise id has at most one of them.\<close>

definition pendingRequests :: "string \<Rightarrow> store \<Rightarrow> deleteRequest list" where
  "pendingRequests pid s = filter (isPendingFor pid) (deleteRequests s)"

definition onePending :: "store \<Rightarrow> bool" where
  "onePending s = (\<forall>pid. length (pendingRequests pid s) \<le> 1)"

text \<open>The user record \<open>updateUser\<close> writes for \<^verbatim>\<open>{ totalPromises: n }\<close>, and the request
  record \<open>updateDeleteRequestStatus\<close> writes.\<close>

definition totalUpdate :: "user \<Rightarrow> int \<Rightarrow> int \<Rightarrow> user" where
  "totalUpdate usr n now = applyUpdates usr (noUpdates\<lparr> u_totalPromises := Some n \<rparr>) now"

definition processed :: "deleteRequest \<Rightarrow> string \<Rightarrow> string \<Rightarrow> int \<Rightarrow> deleteRequest" where
  "processed req status adminAddress now =
     req\<lparr> r_status := status, processedBy := Some adminAddress, processedAt := Some now \<rparr>"

text \<open>The owner record \<open>createPromise\<close> works with: the stored one, or the one \<open>createUser\<close>
  has just made.\<close>

definition ownerRecord :: "store \<Rightarrow> string \<Rightarrow> int \<Rightarrow> user" where
  "ownerRecord s addr now = (case getUser s addr of Some usr \<Rightarrow> usr | None \<Rightarrow> newUser addr now)"

section \<open>Example stores\<close>

text \<open>The scenario of the specification: a promise of \<open>0xabc\<close> is created and completed,
  a second one is created and failed.\<close>

definition promiseData1 :: promiseFields where
  "promiseData1 =
     \<lparr> f_id = None, f_address = Some ''0xabc'', f_message = Some ''run 5k'',
       f_deadline = Some 100, f_status = Some ''active'', f_proof = None,
       f_category = Some ''fitness'', f_difficulty = Some ''easy'', f_createdAt = None,
       f_updatedAt = None, f_adminAdjustedProgress = None, f_updaterAddress = None \<rparr>"

definition noFields :: promiseFields where
  "noFields =
     \<lparr> f_id = None, f_address = None, f_message = None, f_deadline = None, f_status = None,
       f_proof = None, f_category = None, f_difficulty = None, f_createdAt = None,
       f_updatedAt = None, f_adminAdjustedProgress = None, f_updaterAddress = None \<rparr>"

definition scenario :: "operation list" where
  "scenario =
     [CreatePromise promiseData1 1 ''promise_1_a'',
      UpdatePromise ''promise_1_a'' (Some (noFields\<lparr> f_status := Some ''completed'' \<rparr>)) 2,
      CreatePromise promiseData1 3 ''promise_3_b'',
      UpdatePromise ''promise_3_b'' (Some (noFields\<lparr> f_status := Some ''failed'' \<rparr>)) 4]"

definition afterCreate :: store where
  "afterCreate = run (initialStore 0) [CreatePromise promiseData1 1 ''promise_1_a'']"

text \<open>The scenario before its last step.\<close>

definition beforeFail :: store where
  "beforeFail = run (initialStore 0) (take 3 scenario)"

text \<open>The scenario followed by a deletion request for its first promise.\<close>

definition withRequest :: store where
  "withRequest =
     fst (addDeleteRequest (run (initialStore 0) scenario) ''promise_1_a'' ''0xabc'' 5 ''delreq_5_a'')"

text \<open>A request body of another owner, sent with status \<open>completed\<close>.\<close>

definition promiseData2 :: promiseFields where
  "promiseData2 = promiseData1\<lparr> f_address := Some ''0xdef'', f_status := Some ''completed'' \<rparr>"

text \<open>A request body with an empty address and an empty message.\<close>

definition emptyFields :: promiseFields where
  "emptyFields = promiseData1\<lparr> f_address := Some [], f_message := Some [] \<rparr>"

text \<open>The empty store with a deletion request for a promise id that no promise carries.\<close>

definition orphanRequest :: store where
  "orphanRequest = fst (addDeleteRequest (initialStore 0) ''ghost'' ''0xabc'' 1 ''delreq_1_a'')"

section \<open>Basic facts about the operations\<close>

lemma findIndex_Some:
  "findIndex P xs = Some i \<Longrightarrow> i < length xs \<and> P (xs ! i) \<and> (\<forall>j<i. \<not> P (xs ! j))"
proof (induction xs arbitrary: i)
  case Nil
  then show ?case by simp
next
  case (Cons x xs)
  show ?case
  proof (cases "P x")
    case True
    with Cons.prems show ?thesis by simp
  next
    case False
    with Cons.prems obtain k where k: "findIndex P xs = Some k" "i = Suc k"
      by auto
    from Cons.IH[OF k(1)] False k(2) show ?thesis
      by (auto simp: less_Suc_eq_0_disj)
  qed
qed

lemma findIndex_None: "findIndex P xs = None \<longleftrightarrow> (\<forall>x\<in>set xs. \<not> P x)"
  by (induction xs) auto

lemma findIndex_find:
  "findIndex P xs = Some i \<Longrightarrow> find P xs = Some (xs ! i)"
  by (induction xs arbitrary: i) (auto split: if_splits)

lemma set_AList_update: "set (AList.update k v al) \<subseteq> insert (k, v) (set al)"
  by (induction al) auto

lemma keys_AList_update_present:
  "map_of al k = Some w \<Longrightarrow> map fst (AList.update k v al) = map fst al"
  by (induction al) (auto split: if_splits)

lemma updateGlobalStats_sel [simp]:
  "users (updateGlobalStats s now) = users s"
  "promises (updateGlobalStats s now) = promises s"
  "deleteRequests (updateGlobalStats s now) = deleteRequests s"
  "sessions (updateGlobalStats s now) = sessions s"
  "stats (updateGlobalStats s now) = computeStats s now"
  by (simp_all add: updateGlobalStats_def)

lemma computeStats_cong:
  "users s = users t \<Longrightarrow> promises s = promises t \<Longrightarrow> sessions s = sessions t \<Longrightarrow>
   computeStats s now = computeStats t now"
  by (simp add: computeStats_def Let_def)

lemma getUser_updateGlobalStats [simp]: "getUser (updateGlobalStats s now) a = getUser s a"
  by (simp add: getUser_def)

lemma updateUser_found:
  "map_of (users s) (toLowerCase a) = Some usr \<Longrightarrow>
   updateUser s a upd now =
     (s\<lparr> users := AList.update (toLowerCase a) (applyUpdates usr upd now) (users s) \<rparr>,
      Inr (applyUpdates usr upd now))"
  by (simp add: updateUser_def Let_def)

lemma updateUser_frame:
  "promises (fst (updateUser s a upd now)) = promises s"
  "deleteRequests (fst (updateUser s a upd now)) = deleteRequests s"
  "sessions (fst (updateUser s a upd now)) = sessions s"
  "stats (fst (updateUser s a upd now)) = stats s"
  by (simp_all add: updateUser_def Let_def split: option.splits)

lemma updateUserReputation_frame:
  "promises (updateUserReputation s a st now) = promises s"
  "deleteRequests (updateUserReputation s a st now) = deleteRequests s"
  "sessions (updateUserReputation s a st now) = sessions s"
  "stats (updateUserReputation s a st now) = stats s"
  by (simp_all add: updateUserReputation_def updateUser_frame split: option.splits)

lemma updateUserReputation_found:
  "getUser s a = Some usr \<Longrightarrow>
   updateUserReputation s a st now =
     s\<lparr> users := AList.update (toLowerCase a)
                    (applyUpdates usr (reputationUpdates usr st) now) (users s) \<rparr>"
  by (simp add: updateUserReputation_def getUser_def updateUser_def Let_def)

lemma reputationUpdates_completed:
  "applyUpdates usr (reputationUpdates usr ''completed'') now =
     usr\<lparr> reputation := max 0 (reputation usr + 10),
          completedPromises := completedPromises usr + 1,
          streak := streak usr + 1,
          level := max 0 (reputation usr + 10) div 50 + 1,
          lastActive := now \<rparr>"
  by (simp add: applyUpdates_def reputationUpdates_def outcomeUpdates_def noUpdates_def spread_def Let_def)

lemma reputationUpdates_failed:
  "applyUpdates usr (reputationUpdates usr ''failed'') now =
     usr\<lparr> reputation := max 0 (reputation usr - 5),
          failedPromises := failedPromises usr + 1,
          streak := 0,
          level := max 0 (reputation usr - 5) div 50 + 1,
          lastActive := now \<rparr>"
  by (simp add: applyUpdates_def reputationUpdates_def outcomeUpdates_def noUpdates_def spread_def Let_def)

lemma reputationUpdates_level:
  "level (applyUpdates usr (reputationUpdates usr st) now) =
     reputation (applyUpdates usr (reputationUpdates usr st) now) div 50 + 1"
  "0 \<le> reputation (applyUpdates usr (reputationUpdates usr st) now)"
  by (simp_all add: applyUpdates_def reputationUpdates_def outcomeUpdates_def noUpdates_def spread_def Let_def)

lemma reputationUpdates_frame:
  "address (applyUpdates usr (reputationUpdates usr st) now) = address usr"
  "totalPromises (applyUpdates usr (reputationUpdates usr st) now) = totalPromises usr"
  "joinedAt (applyUpdates usr (reputationUpdates usr st) now) = joinedAt usr"
  "lastActive (applyUpdates usr (reputationUpdates usr st) now) = now"
  by (simp_all add: applyUpdates_def reputationUpdates_def outcomeUpdates_def noUpdates_def spread_def Let_def)

section \<open>Every operation keeps reputation and level consistent\<close>

lemma usersInv_update:
  "usersInv s \<Longrightarrow> userInv v \<Longrightarrow> usersInv (s\<lparr> users := AList.update k v (users s) \<rparr>)"
  using set_AList_update[of k v "users s"] by (auto simp: usersInv_def)

lemma usersInv_lookup: "usersInv s \<Longrightarrow> map_of (users s) k = Some usr \<Longrightarrow> userInv usr"
  by (auto simp: usersInv_def dest: map_of_SomeD)

lemma usersInv_cong: "users s = users t \<Longrightarrow> usersInv s = usersInv t"
  by (simp add: usersInv_def)

lemma usersInv_createUser: "usersInv s \<Longrightarrow> usersInv (fst (createUser s a now))"
proof -
  assume inv: "usersInv s"
  have "usersInv (s\<lparr> users := AList.update (toLowerCase a) (newUser a now) (users s) \<rparr>)"
    by (rule usersInv_update[OF inv]) (simp add: userInv_def newUser_def)
  then show ?thesis
    by (simp add: createUser_def Let_def usersInv_def)
qed

lemma userInv_totalPromises:
  "userInv usr \<Longrightarrow> userInv (applyUpdates usr (noUpdates\<lparr> u_totalPromises := Some n \<rparr>) now)"
  by (simp add: userInv_def applyUpdates_def noUpdates_def spread_def)

lemma userInv_reputationUpdates:
  "userInv (applyUpdates usr (reputationUpdates usr st) now)"
  by (simp add: userInv_def reputationUpdates_level)

lemma usersInv_updateUser_total:
  "usersInv s \<Longrightarrow>
   usersInv (fst (updateUser s a (noUpdates\<lparr> u_totalPromises := Some n \<rparr>) now))"
  by (auto simp: updateUser_def Let_def split: option.splits
           intro!: usersInv_update userInv_totalPromises dest: usersInv_lookup)

lemma usersInv_updateUserReputation:
  "usersInv s \<Longrightarrow> usersInv (updateUserReputation s a st now)"
  by (auto simp: updateUserReputation_def getUser_def updateUser_def Let_def split: option.splits
           intro!: usersInv_update userInv_reputationUpdates)

lemma usersInv_updateGlobalStats [simp]: "usersInv (updateGlobalStats s now) = usersInv s"
  by (simp add: usersInv_def)

lemma usersInv_promises_update [simp]: "usersInv (s\<lparr> promises := ps \<rparr>) = usersInv s"
  by (simp add: usersInv_def)

lemma usersInv_deleteRequests_update [simp]: "usersInv (s\<lparr> deleteRequests := rs \<rparr>) = usersInv s"
  by (simp add: usersInv_def)

lemma usersInv_sessions_update [simp]: "usersInv (s\<lparr> sessions := ss \<rparr>) = usersInv s"
  by (simp add: usersInv_def)

lemma usersInv_createPromise:
  assumes "usersInv s"
  shows "usersInv (fst (createPromise s promiseData now gid))"
proof (cases "f_address promiseData")
  case None
  with assms show ?thesis by (simp add: createPromise_def)
next
  case (Some addr)
  define s1 where "s1 = fst (case getUser s addr of Some u \<Rightarrow> (s, u) | None \<Rightarrow> createUser s addr now)"
  define usr where "usr = snd (case getUser s addr of Some u \<Rightarrow> (s, u) | None \<Rightarrow> createUser s addr now)"
  define s2 where "s2 = s1\<lparr> promises := promises s @ [newPromise promiseData addr now gid] \<rparr>"
  define s3 where
    "s3 = fst (updateUser s2 addr (noUpdates\<lparr> u_totalPromises := Some (totalPromises usr + 1) \<rparr>) now)"
  have "usersInv s1"
    using assms usersInv_createUser[OF assms, of addr now]
    by (simp add: s1_def split: option.splits)
  then have "usersInv s2" by (simp add: s2_def)
  then have inv3: "usersInv s3" unfolding s3_def by (rule usersInv_updateUser_total)
  have "fst (createPromise s promiseData now gid) = s3 \<or>
        fst (createPromise s promiseData now gid) = updateGlobalStats s3 now"
    by (simp add: createPromise_def Some Let_def s1_def usr_def s2_def s3_def
             split: prod.splits sum.splits)
  with inv3 show ?thesis by auto
qed

lemma usersInv_updatePromise:
  assumes "usersInv s"
  shows "usersInv (fst (updatePromise s pid updates now))"
  using assms
  by (auto simp: updatePromise_def Let_def usersInv_updateUserReputation
           split: option.splits)

lemma usersInv_deletePromise:
  assumes "usersInv s"
  shows "usersInv (fst (deletePromise s pid now))"
proof (cases "find (\<lambda>p. p_id p = pid) (promises s)")
  case None
  with assms show ?thesis by (simp add: deletePromise_def)
next
  case (Some ptd)
  define s1 where "s1 = s\<lparr> promises := filter (\<lambda>p. p_id p \<noteq> pid) (promises s) \<rparr>"
  have inv1: "usersInv s1" using assms by (simp add: s1_def)
  show ?thesis
  proof (cases "getUser s1 (p_address ptd)")
    case None
    with inv1 Some show ?thesis
      by (simp add: deletePromise_def Let_def s1_def)
  next
    case (Some usr)
    define s2 where
      "s2 = fst (updateUser s1 (p_address ptd)
                   (noUpdates\<lparr> u_totalPromises := Some (max 0 (totalPromises usr - 1)) \<rparr>) now)"
    have inv2: "usersInv s2" unfolding s2_def by (rule usersInv_updateUser_total[OF inv1])
    have "fst (deletePromise s pid now) = s2 \<or>
          fst (deletePromise s pid now) = updateGlobalStats s2 now"
      using \<open>find (\<lambda>p. p_id p = pid) (promises s) = Some ptd\<close> Some
      by (simp add: deletePromise_def Let_def s1_def s2_def split: prod.splits sum.splits)
    with inv2 show ?thesis by auto
  qed
qed

lemma usersInv_addDeleteRequest:
  "usersInv s \<Longrightarrow> usersInv (fst (addDeleteRequest s pid requester now gid))"
  by (simp add: addDeleteRequest_def Let_def split: option.splits)

lemma usersInv_updateDeleteRequestStatus:
  assumes "usersInv s"
  shows "usersInv (fst (updateDeleteRequestStatus s requestId status adminAddress now))"
proof (cases "findIndex (\<lambda>req. r_id req = requestId) (deleteRequests s)")
  case None
  with assms show ?thesis by (simp add: updateDeleteRequestStatus_def)
next
  case (Some i)
  define req where "req = (deleteRequests s ! i)\<lparr> r_status := status,
      processedBy := Some adminAddress, processedAt := Some now \<rparr>"
  define s1 where "s1 = s\<lparr> deleteRequests := (deleteRequests s)[i := req] \<rparr>"
  have inv1: "usersInv s1" using assms by (simp add: s1_def)
  have "fst (updateDeleteRequestStatus s requestId status adminAddress now) = s1 \<or>
        fst (updateDeleteRequestStatus s requestId status adminAddress now) =
          fst (deletePromise s1 (promiseId req) now)"
    by (simp add: updateDeleteRequestStatus_def Some Let_def s1_def req_def
             split: prod.splits sum.splits)
  with inv1 usersInv_deletePromise[OF inv1] show ?thesis by auto
qed

lemma usersInv_recordSession: "usersInv s \<Longrightarrow> usersInv (recordSession s sid ipa now)"
  by (simp add: recordSession_def split: option.splits)

lemma usersInv_step: "usersInv s \<Longrightarrow> usersInv (step s op)"
  by (cases op)
     (simp_all add: usersInv_createPromise usersInv_updatePromise usersInv_addDeleteRequest
        usersInv_updateDeleteRequestStatus usersInv_recordSession)

lemma usersInv_run: "usersInv s \<Longrightarrow> usersInv (run s ops)"
  unfolding run_def by (induction ops arbitrary: s) (simp_all add: usersInv_step)

lemma usersInv_initialStore: "usersInv (initialStore now)"
  by (simp add: initialStore_def usersInv_def)

text \<open>The facts of this section are facts of the dictionary model. An operation writes no
  key of the users file but the one of the address it has looked up, so what the code does
  at an \<open>inheritedName\<close> touches no other record: in the code, too, every record stored
  under a key that is not an \<open>inheritedName\<close> has a reputation that is not negative and the
  level that belongs to it. (Under the key \<^verbatim>\<open>constructor\<close> the code can store a record
  without reputation and level, see \<open>getUser\<close>.)\<close>

lemma usersInv_plain_keys:
  "\<forall>(k, usr) \<in> set (users (run (initialStore t0) ops)).
      \<not> inheritedName k \<longrightarrow> 0 \<le> reputation usr \<and> level usr = reputation usr div 50 + 1"
  using usersInv_run[OF usersInv_initialStore, of t0 ops]
  by (auto simp: usersInv_def userInv_def)

section \<open>Lists of delete requests\<close>

lemma find_filter_single:
  "find P xs = Some x \<Longrightarrow> length (filter P xs) \<le> 1 \<Longrightarrow> filter P xs = [x]"
  by (induction xs) (auto split: if_splits)

lemma find_None_filter: "find P xs = None \<Longrightarrow> filter P xs = []"
  by (induction xs) (auto split: if_splits)

lemma length_filter_list_update:
  "\<not> P y \<Longrightarrow> length (filter P (xs[i := y])) \<le> length (filter P xs)"
proof (induction xs arbitrary: i)
  case Nil
  then show ?case by simp
next
  case (Cons x xs)
  show ?case
  proof (cases i)
    case 0
    with Cons.prems show ?thesis by simp
  next
    case (Suc j)
    with Cons.IH[OF Cons.prems, of j] show ?thesis by simp
  qed
qed

lemma pendingRequests_frame:
  "deleteRequests s = deleteRequests t \<Longrightarrow> pendingRequests pid s = pendingRequests pid t"
  by (simp add: pendingRequests_def)

lemma onePending_frame: "deleteRequests s = deleteRequests t \<Longrightarrow> onePending s = onePending t"
  by (simp add: onePending_def pendingRequests_def)

section \<open>What each operation returns, case by case\<close>

lemma totalUpdate_eq: "totalUpdate usr n now = usr\<lparr> totalPromises := n, lastActive := now \<rparr>"
  by (simp add: totalUpdate_def applyUpdates_def noUpdates_def spread_def)

lemma updateGlobalStats_stats [simp]:
  "updateGlobalStats (s\<lparr> stats := x \<rparr>) now = updateGlobalStats s now"
  by (simp add: updateGlobalStats_def computeStats_def)

lemma createUser_eq:
  "createUser s a now =
     (updateGlobalStats (s\<lparr> users := AList.update (toLowerCase a) (newUser a now) (users s) \<rparr>) now,
      newUser a now)"
  by (simp add: createUser_def Let_def)

lemma createPromise_absent:
  "f_address promiseData = None \<Longrightarrow> createPromise s promiseData now gid = (s, Inl TypeError)"
  by (simp add: createPromise_def)

lemma createPromise_existing:
  assumes "f_address promiseData = Some addr" and "getUser s addr = Some usr"
  shows "createPromise s promiseData now gid =
     (updateGlobalStats
        (s\<lparr> promises := promises s @ [newPromise promiseData addr now gid],
            users := AList.update (toLowerCase addr)
                       (totalUpdate usr (totalPromises usr + 1) now) (users s) \<rparr>) now,
      Inr (newPromise promiseData addr now gid))"
proof -
  have "map_of (users (s\<lparr> promises := promises s @ [newPromise promiseData addr now gid] \<rparr>))
          (toLowerCase addr) = Some usr"
    using assms(2) by (simp add: getUser_def)
  from updateUser_found[OF this] assms show ?thesis
    by (simp add: createPromise_def Let_def totalUpdate_def)
qed

lemma createPromise_fresh:
  assumes "f_address promiseData = Some addr" and "getUser s addr = None"
  shows "createPromise s promiseData now gid =
     (updateGlobalStats
        (s\<lparr> promises := promises s @ [newPromise promiseData addr now gid],
            users := AList.update (toLowerCase addr)
                       (totalUpdate (newUser addr now) (totalPromises (newUser addr now) + 1) now)
                       (users s) \<rparr>) now,
      Inr (newPromise promiseData addr now gid))"
proof -
  let ?nu = "newUser addr now"
  let ?s1 = "updateGlobalStats (s\<lparr> users := AList.update (toLowerCase addr) ?nu (users s) \<rparr>) now"
  let ?s2 = "?s1\<lparr> promises := promises s @ [newPromise promiseData addr now gid] \<rparr>"
  let ?s3 = "?s2\<lparr> users := AList.update (toLowerCase addr)
                (totalUpdate ?nu (totalPromises ?nu + 1) now) (users ?s2) \<rparr>"
  have "map_of (users ?s2) (toLowerCase addr) = Some ?nu"
    by (simp add: update_conv')
  from updateUser_found[OF this]
  have upd: "updateUser ?s2 addr (noUpdates\<lparr> u_totalPromises := Some (totalPromises ?nu + 1) \<rparr>) now =
          (?s3, Inr (totalUpdate ?nu (totalPromises ?nu + 1) now))"
    by (simp add: totalUpdate_def)
  have "createPromise s promiseData now gid =
          (updateGlobalStats ?s3 now, Inr (newPromise promiseData addr now gid))"
    using assms upd by (simp add: createPromise_def createUser_eq Let_def)
  also have "updateGlobalStats ?s3 now =
     updateGlobalStats
        (s\<lparr> promises := promises s @ [newPromise promiseData addr now gid],
            users := AList.update (toLowerCase addr)
                       (totalUpdate ?nu (totalPromises ?nu + 1) now) (users s) \<rparr>) now"
    by (simp add: updateGlobalStats_def computeStats_def)
  finally show ?thesis .
qed

lemma deletePromise_absent:
  "find (\<lambda>p. p_id p = pid) (promises s) = None \<Longrightarrow>
   deletePromise s pid now = (s, Inl (PromiseNotFound pid))"
  by (simp add: deletePromise_def)

lemma deletePromise_owner:
  assumes "find (\<lambda>p. p_id p = pid) (promises s) = Some target"
    and "getUser s (p_address target) = Some usr"
  shows "deletePromise s pid now =
     (updateGlobalStats
        (s\<lparr> promises := filter (\<lambda>p. p_id p \<noteq> pid) (promises s),
            users := AList.update (toLowerCase (p_address target))
                       (totalUpdate usr (max 0 (totalPromises usr - 1)) now) (users s) \<rparr>) now,
      Inr ())"
proof -
  let ?s1 = "s\<lparr> promises := filter (\<lambda>p. p_id p \<noteq> pid) (promises s) \<rparr>"
  have g: "getUser ?s1 (p_address target) = Some usr"
    using assms(2) by (simp add: getUser_def)
  then have "map_of (users ?s1) (toLowerCase (p_address target)) = Some usr"
    by (simp add: getUser_def)
  from updateUser_found[OF this] assms(1) g show ?thesis
    by (simp add: deletePromise_def Let_def totalUpdate_def)
qed

lemma deletePromise_no_owner:
  assumes "find (\<lambda>p. p_id p = pid) (promises s) = Some target"
    and "getUser s (p_address target) = None"
  shows "deletePromise s pid now =
     (updateGlobalStats (s\<lparr> promises := filter (\<lambda>p. p_id p \<noteq> pid) (promises s) \<rparr>) now,
      Inr ())"
proof -
  have "getUser (s\<lparr> promises := filter (\<lambda>p. p_id p \<noteq> pid) (promises s) \<rparr>)
          (p_address target) = None"
    using assms(2) by (simp add: getUser_def)
  with assms(1) show ?thesis
    by (simp add: deletePromise_def Let_def)
qed

lemma deleteRequests_createPromise [simp]:
  "deleteRequests (fst (createPromise s promiseData now gid)) = deleteRequests s"
proof (cases "f_address promiseData")
  case None
  then show ?thesis by (simp add: createPromise_absent)
next
  case (Some addr)
  then show ?thesis
    by (cases "getUser s addr") (simp_all add: createPromise_fresh createPromise_existing)
qed

lemma deleteRequests_updatePromise [simp]:
  "deleteRequests (fst (updatePromise s pid updates now)) = deleteRequests s"
  by (simp add: updatePromise_def Let_def updateUserReputation_frame split: option.splits)

lemma deleteRequests_deletePromise [simp]:
  "deleteRequests (fst (deletePromise s pid now)) = deleteRequests s"
proof (cases "find (\<lambda>p. p_id p = pid) (promises s)")
  case None
  then show ?thesis by (simp add: deletePromise_absent)
next
  case (Some target)
  then show ?thesis
    by (cases "getUser s (p_address target)")
       (simp_all add: deletePromise_no_owner deletePromise_owner)
qed

lemma deleteRequests_recordSession [simp]:
  "deleteRequests (recordSession s sid ipa now) = deleteRequests s"
  by (simp add: recordSession_def split: option.splits)

lemma updateDeleteRequestStatus_absent:
  "findIndex (\<lambda>req. r_id req = requestId) (deleteRequests s) = None \<Longrightarrow>
   updateDeleteRequestStatus s requestId status adminAddress now =
     (s, Inl (DeleteRequestNotFound requestId))"
  by (simp add: updateDeleteRequestStatus_def)

lemma updateDeleteRequestStatus_other:
  assumes "findIndex (\<lambda>req. r_id req = requestId) (deleteRequests s) = Some i"
    and "status \<noteq> ''approved''"
  shows "updateDeleteRequestStatus s requestId status adminAddress now =
     (s\<lparr> deleteRequests :=
          (deleteRequests s)[i := processed (deleteRequests s ! i) status adminAddress now] \<rparr>,
      Inr (processed (deleteRequests s ! i) status adminAddress now))"
  using assms by (simp add: updateDeleteRequestStatus_def Let_def processed_def)

lemma updateDeleteRequestStatus_approved:
  assumes "findIndex (\<lambda>req. r_id req = requestId) (deleteRequests s) = Some i"
  shows "updateDeleteRequestStatus s requestId ''approved'' adminAddress now =
     (fst (deletePromise
        (s\<lparr> deleteRequests :=
            (deleteRequests s)[i := processed (deleteRequests s ! i) ''approved'' adminAddress now] \<rparr>)
        (promiseId (deleteRequests s ! i)) now),
      case snd (deletePromise
        (s\<lparr> deleteRequests :=
            (deleteRequests s)[i := processed (deleteRequests s ! i) ''approved'' adminAddress now] \<rparr>)
        (promiseId (deleteRequests s ! i)) now) of
        Inl e \<Rightarrow> Inl e
      | Inr _ \<Rightarrow> Inr (processed (deleteRequests s ! i) ''approved'' adminAddress now))"
  using assms
  by (simp add: updateDeleteRequestStatus_def Let_def processed_def split: prod.splits sum.splits)

lemma deleteRequests_updateDeleteRequestStatus:
  assumes "findIndex (\<lambda>req. r_id req = requestId) (deleteRequests s) = Some i"
  shows "deleteRequests (fst (updateDeleteRequestStatus s requestId status adminAddress now)) =
     (deleteRequests s)[i := processed (deleteRequests s ! i) status adminAddress now]"
proof (cases "status = ''approved''")
  case True
  then show ?thesis by (simp add: updateDeleteRequestStatus_approved[OF assms])
next
  case False
  then show ?thesis by (simp add: updateDeleteRequestStatus_other[OF assms])
qed

lemma addDeleteRequest_existing:
  "find (isPendingFor pid) (deleteRequests s) = Some ex \<Longrightarrow>
   addDeleteRequest s pid requester now gid = (s, ex)"
  by (simp add: addDeleteRequest_def)

lemma addDeleteRequest_new:
  assumes "find (isPendingFor pid) (deleteRequests s) = None"
  shows "addDeleteRequest s pid requester now gid =
           (s\<lparr> deleteRequests := deleteRequests s @
                 [\<lparr> r_id = gid, promiseId = pid, requesterAddress = requester,
                    r_status = ''pending'', requestedAt = now,
                    processedBy = None, processedAt = None \<rparr>] \<rparr>,
            \<lparr> r_id = gid, promiseId = pid, requesterAddress = requester,
              r_status = ''pending'', requestedAt = now,
              processedBy = None, processedAt = None \<rparr>)"
  using assms by (simp add: addDeleteRequest_def Let_def)

section \<open>Every operation keeps at most one pending request per promise\<close>

lemma onePending_addDeleteRequest:
  assumes "onePending s"
  shows "onePending (fst (addDeleteRequest s pid requester now gid))"
proof (cases "find (isPendingFor pid) (deleteRequests s)")
  case (Some ex)
  with assms show ?thesis by (simp add: addDeleteRequest_existing)
next
  case None
  have none: "filter (isPendingFor pid) (deleteRequests s) = []"
    by (rule find_None_filter[OF None])
  show ?thesis
    unfolding onePending_def
  proof
    fix pid'
    show "length (pendingRequests pid' (fst (addDeleteRequest s pid requester now gid))) \<le> 1"
    proof (cases "pid' = pid")
      case True
      with none show ?thesis
        by (simp add: addDeleteRequest_new[OF None] pendingRequests_def)
    next
      case False
      with assms show ?thesis
        by (simp add: addDeleteRequest_new[OF None] pendingRequests_def onePending_def
                 isPendingFor_def)
    qed
  qed
qed

lemma onePending_updateDeleteRequestStatus:
  assumes "onePending s" and "status \<noteq> ''pending''"
  shows "onePending (fst (updateDeleteRequestStatus s requestId status adminAddress now))"
proof (cases "findIndex (\<lambda>req. r_id req = requestId) (deleteRequests s)")
  case None
  with assms show ?thesis by (simp add: updateDeleteRequestStatus_absent)
next
  case (Some i)
  let ?req = "processed (deleteRequests s ! i) status adminAddress now"
  show ?thesis
    unfolding onePending_def
  proof
    fix pid'
    have "\<not> isPendingFor pid' ?req"
      using assms(2) by (simp add: isPendingFor_def processed_def)
    then have "length (filter (isPendingFor pid') ((deleteRequests s)[i := ?req]))
                 \<le> length (filter (isPendingFor pid') (deleteRequests s))"
      by (rule length_filter_list_update)
    also have "\<dots> \<le> 1"
      using assms(1) by (simp add: onePending_def pendingRequests_def)
    finally show "length (pendingRequests pid'
        (fst (updateDeleteRequestStatus s requestId status adminAddress now))) \<le> 1"
      by (simp add: pendingRequests_def deleteRequests_updateDeleteRequestStatus[OF Some])
  qed
qed

lemma onePending_step: "onePending s \<Longrightarrow> onePending (step s op)"
  by (cases op)
     (simp_all add: onePending_addDeleteRequest onePending_updateDeleteRequestStatus
        onePending_frame[of "fst (createPromise s x y z)" s for x y z]
        onePending_frame[of "fst (updatePromise s x y z)" s for x y z]
        onePending_frame[of "recordSession s x y z" s for x y z])

lemma onePending_run: "onePending s \<Longrightarrow> onePending (run s ops)"
  unfolding run_def by (induction ops arbitrary: s) (simp_all add: onePending_step)

lemma onePending_initialStore: "onePending (initialStore now)"
  by (simp add: initialStore_def onePending_def pendingRequests_def)

section \<open>Statistics and the top performer\<close>

lemma find_append_None:
  "find P xs = None \<Longrightarrow> find P (xs @ ys) = find P ys"
  by (induction xs) (auto split: if_splits)

lemma find_Some_holds: "find P xs = Some x \<Longrightarrow> P x \<and> x \<in> set xs"
  by (induction xs) (auto split: if_splits)

lemma computeStats_stats [simp]: "computeStats (s\<lparr> stats := x \<rparr>) now = computeStats s now"
  by (simp add: computeStats_def)

lemma computeStats_updateGlobalStats [simp]:
  "computeStats (updateGlobalStats s t) now = computeStats s now"
  by (simp add: updateGlobalStats_def)

lemma topUser_snoc: "topUser (us @ [usr]) = topStep (topUser us) usr"
  by (simp add: topUser_def)

lemma topUser_spec:
  "(topUser us = None \<and> (\<forall>usr \<in> set us. reputation usr \<le> 0)) \<or>
   (\<exists>i < length us. topUser us = Some (us ! i) \<and> 0 < reputation (us ! i) \<and>
      (\<forall>j < length us. reputation (us ! j) \<le> reputation (us ! i)) \<and>
      (\<forall>j < i. reputation (us ! j) < reputation (us ! i)))"
proof (induction us rule: rev_induct)
  case Nil
  then show ?case by (simp add: topUser_def)
next
  case (snoc usr us)
  from snoc.IH show ?case
  proof (elim disjE conjE exE)
    assume none: "topUser us = None" and low: "\<forall>u \<in> set us. reputation u \<le> 0"
    show ?thesis
    proof (cases "0 < reputation usr")
      case True
      have earlier: "\<forall>j < length us. reputation (us ! j) < reputation usr"
        using low True by (metis le_less_trans nth_mem)
      have "topUser (us @ [usr]) = Some ((us @ [usr]) ! length us)"
        using none True by (simp add: topUser_snoc topStep_def)
      moreover have "\<forall>j < length (us @ [usr]). reputation ((us @ [usr]) ! j) \<le> reputation usr"
        using earlier by (auto simp: nth_append less_Suc_eq)
      moreover have "\<forall>j < length us. reputation ((us @ [usr]) ! j) < reputation usr"
        using earlier by (simp add: nth_append)
      ultimately show ?thesis using True
        by (intro disjI2 exI[of _ "length us"]) simp
    next
      case False
      with none low show ?thesis
        by (intro disjI1) (simp add: topUser_snoc topStep_def)
    qed
  next
    fix i
    assume i: "i < length us" and top: "topUser us = Some (us ! i)"
      and pos: "0 < reputation (us ! i)"
      and maxi: "\<forall>j < length us. reputation (us ! j) \<le> reputation (us ! i)"
      and first: "\<forall>j < i. reputation (us ! j) < reputation (us ! i)"
    show ?thesis
    proof (cases "reputation (us ! i) < reputation usr")
      case True
      have earlier: "\<forall>j < length us. reputation (us ! j) < reputation usr"
        using maxi True by (metis le_less_trans)
      have "topUser (us @ [usr]) = Some ((us @ [usr]) ! length us)"
        using top True by (simp add: topUser_snoc topStep_def)
      moreover have "\<forall>j < length (us @ [usr]). reputation ((us @ [usr]) ! j) \<le> reputation usr"
        using earlier by (auto simp: nth_append less_Suc_eq)
      moreover have "\<forall>j < length us. reputation ((us @ [usr]) ! j) < reputation usr"
        using earlier by (simp add: nth_append)
      moreover have "0 < reputation usr" using pos True by simp
      ultimately show ?thesis
        by (intro disjI2 exI[of _ "length us"]) simp
    next
      case False
      have "topUser (us @ [usr]) = Some ((us @ [usr]) ! i)"
        using top False i by (simp add: topUser_snoc topStep_def nth_append)
      moreover have "\<forall>j < length (us @ [usr]). reputation ((us @ [usr]) ! j) \<le> reputation ((us @ [usr]) ! i)"
        using maxi False i by (auto simp: nth_append less_Suc_eq)
      moreover have "\<forall>j < i. reputation ((us @ [usr]) ! j) < reputation ((us @ [usr]) ! i)"
        using first i by (simp add: nth_append)
      moreover have "0 < reputation ((us @ [usr]) ! i)"
        using pos i by (simp add: nth_append)
      ultimately show ?thesis using i
        by (intro disjI2 exI[of _ i]) simp
    qed
  qed
qed

section \<open>Successes and failures\<close>

lemma createPromise_present:
  assumes "f_address promiseData = Some addr"
  shows "createPromise s promiseData now gid =
     (updateGlobalStats
        (s\<lparr> promises := promises s @ [newPromise promiseData addr now gid],
            users := AList.update (toLowerCase addr)
                       (totalUpdate (ownerRecord s addr now)
                          (totalPromises (ownerRecord s addr now) + 1) now) (users s) \<rparr>) now,
      Inr (newPromise promiseData addr now gid))"
proof (cases "getUser s addr")
  case None
  then show ?thesis
    by (simp add: createPromise_fresh[OF assms None] ownerRecord_def)
next
  case (Some usr)
  then show ?thesis
    by (simp add: createPromise_existing[OF assms Some] ownerRecord_def)
qed

lemma createPromise_Inr:
  assumes "createPromise s promiseData now gid = (s', Inr np)"
  obtains addr where "f_address promiseData = Some addr"
proof (cases "f_address promiseData")
  case None
  with assms show ?thesis by (simp add: createPromise_absent)
next
  case (Some addr)
  then show ?thesis by (rule that)
qed

lemma createPromise_Inl:
  "snd (createPromise s promiseData now gid) = Inl e \<Longrightarrow>
   e = TypeError \<and> f_address promiseData = None \<and> fst (createPromise s promiseData now gid) = s"
  by (cases "f_address promiseData") (simp_all add: createPromise_absent createPromise_present)

lemma updatePromise_Inl:
  assumes "snd (updatePromise s pid updates now) = Inl e"
  shows "(e = PromiseNotFound pid \<and> fst (updatePromise s pid updates now) = s) \<or>
         (\<exists>i. findIndex (\<lambda>p. p_id p = pid) (promises s) = Some i \<and> updates = None \<and>
              e = TypeError \<and>
              fst (updatePromise s pid updates now) =
                s\<lparr> promises := (promises s)[i := (promises s ! i)\<lparr> p_updatedAt := now \<rparr>] \<rparr>)"
proof (cases "findIndex (\<lambda>p. p_id p = pid) (promises s)")
  case None
  with assms show ?thesis by (simp add: updatePromise_def)
next
  case (Some i)
  show ?thesis
  proof (cases updates)
    case None
    with assms Some show ?thesis by (simp add: updatePromise_def Let_def)
  next
    case (Some body)
    with assms \<open>findIndex (\<lambda>p. p_id p = pid) (promises s) = Some i\<close> show ?thesis
      by (simp add: updatePromise_def Let_def)
  qed
qed

lemma deletePromise_Inl:
  assumes "snd (deletePromise s pid now) = Inl e"
  shows "e = PromiseNotFound pid \<and> fst (deletePromise s pid now) = s"
proof (cases "find (\<lambda>p. p_id p = pid) (promises s)")
  case None
  with assms show ?thesis by (simp add: deletePromise_absent)
next
  case (Some target)
  with assms show ?thesis
    by (cases "getUser s (p_address target)")
       (simp_all add: deletePromise_no_owner deletePromise_owner)
qed

lemma updateDeleteRequestStatus_Inl:
  assumes "snd (updateDeleteRequestStatus s requestId status adminAddress now) = Inl e"
  shows "(e = DeleteRequestNotFound requestId \<and>
          fst (updateDeleteRequestStatus s requestId status adminAddress now) = s) \<or>
         (\<exists>i. findIndex (\<lambda>req. r_id req = requestId) (deleteRequests s) = Some i \<and>
              status = ''approved'' \<and>
              e = PromiseNotFound (promiseId (deleteRequests s ! i)) \<and>
              fst (updateDeleteRequestStatus s requestId status adminAddress now) =
                s\<lparr> deleteRequests := (deleteRequests s)
                     [i := processed (deleteRequests s ! i) ''approved'' adminAddress now] \<rparr>)"
proof (cases "findIndex (\<lambda>req. r_id req = requestId) (deleteRequests s)")
  case None
  with assms show ?thesis by (simp add: updateDeleteRequestStatus_absent)
next
  case (Some i)
  show ?thesis
  proof (cases "status = ''approved''")
    case False
    with assms show ?thesis by (simp add: updateDeleteRequestStatus_other[OF Some])
  next
    case True
    let ?s1 = "s\<lparr> deleteRequests := (deleteRequests s)
                  [i := processed (deleteRequests s ! i) ''approved'' adminAddress now] \<rparr>"
    let ?pid = "promiseId (deleteRequests s ! i)"
    from assms True obtain e' where e': "snd (deletePromise ?s1 ?pid now) = Inl e'"
      by (auto simp: updateDeleteRequestStatus_approved[OF Some] split: sum.splits)
    with assms True have "e = e'"
      by (simp add: updateDeleteRequestStatus_approved[OF Some])
    with deletePromise_Inl[OF e'] True Some show ?thesis
      by (simp add: updateDeleteRequestStatus_approved[OF Some])
  qed
qed

section \<open>Claims\<close>

text \<open>
  C1. When \<open>updatePromise\<close> changes the status of a promise to \<open>completed\<close>, the owner's
  reputation becomes reputation + 10, \<open>completedPromises\<close> and \<open>streak\<close> grow by one; when it
  changes the status to \<open>failed\<close>, the reputation becomes max(0, reputation - 5),
  \<open>failedPromises\<close> grows by one and \<open>streak\<close> becomes 0; in both cases the new level is
  floor(new reputation / 50) + 1. The user is any stored user record of the data model, whose
  reputation is not negative.
\<close>

theorem updatePromise_applies_outcome:
  assumes idx: "findIndex (\<lambda>p. p_id p = pid) (promises s) = Some i"
    and st: "f_status updates = Some st" "st = ''completed'' \<or> st = ''failed''"
    and changed: "p_status (promises s ! i) \<noteq> Some st"
    and owner: "getUser s (p_address (promises s ! i)) = Some usr"
    and nonneg: "0 \<le> reputation usr"
  shows "\<exists>usr'. getUser (fst (updatePromise s pid (Some updates) now)) (p_address (promises s ! i)) = Some usr' \<and>
      (st = ''completed'' \<longrightarrow>
         reputation usr' = reputation usr + 10 \<and>
         completedPromises usr' = completedPromises usr + 1 \<and>
         streak usr' = streak usr + 1) \<and>
      (st = ''failed'' \<longrightarrow>
         reputation usr' = max 0 (reputation usr - 5) \<and>
         failedPromises usr' = failedPromises usr + 1 \<and>
         streak usr' = 0) \<and>
      level usr' = reputation usr' div 50 + 1"
proof -
  define s1 where
    "s1 = s\<lparr> promises := (promises s)[i := mergePromise (promises s ! i) updates now] \<rparr>"
  define usr' where "usr' = applyUpdates usr (reputationUpdates usr st) now"
  have owner1: "getUser s1 (p_address (promises s ! i)) = Some usr"
    using owner by (simp add: s1_def getUser_def)
  have nonempty: "st \<noteq> []" using st(2) by auto
  have "fst (updatePromise s pid (Some updates) now) =
          updateGlobalStats (updateUserReputation s1 (p_address (promises s ! i)) st now) now"
    using idx st(1) changed nonempty
    by (simp add: updatePromise_def Let_def s1_def)
  then have "getUser (fst (updatePromise s pid (Some updates) now)) (p_address (promises s ! i)) = Some usr'"
    by (simp add: updateUserReputation_found[OF owner1] getUser_def update_conv' usr'_def)
  moreover have "st = ''completed'' \<longrightarrow>
         reputation usr' = reputation usr + 10 \<and>
         completedPromises usr' = completedPromises usr + 1 \<and>
         streak usr' = streak usr + 1"
    using nonneg by (auto simp: usr'_def reputationUpdates_completed)
  moreover have "st = ''failed'' \<longrightarrow>
         reputation usr' = max 0 (reputation usr - 5) \<and>
         failedPromises usr' = failedPromises usr + 1 \<and>
         streak usr' = 0"
    by (auto simp: usr'_def reputationUpdates_failed)
  moreover have "level usr' = reputation usr' div 50 + 1"
    by (simp add: usr'_def reputationUpdates_level)
  ultimately show ?thesis by blast
qed

theorem updatePromise_applies_outcome_witness:
  "(\<exists>usr'. getUser (fst (updatePromise afterCreate ''promise_1_a''
                          (Some (noFields\<lparr> f_status := Some ''completed'' \<rparr>)) 2)) ''0xabc'' = Some usr' \<and>
      reputation usr' = 10 \<and> completedPromises usr' = 1 \<and> streak usr' = 1 \<and> level usr' = 1) \<and>
   (\<exists>usr'. getUser (fst (updatePromise beforeFail ''promise_3_b''
                          (Some (noFields\<lparr> f_status := Some ''failed'' \<rparr>)) 4)) ''0xabc'' = Some usr' \<and>
      reputation usr' = 5 \<and> failedPromises usr' = 1 \<and> streak usr' = 0 \<and> level usr' = 1)"
proof -
  let ?u = "\<lparr> address = ''0xabc'', reputation = 0, completedPromises = 0, failedPromises = 0,
              totalPromises = 1, streak = 0, level = 1, joinedAt = 1, lastActive = 1 \<rparr>"
  let ?v = "\<lparr> address = ''0xabc'', reputation = 10, completedPromises = 1, failedPromises = 0,
              totalPromises = 2, streak = 1, level = 1, joinedAt = 1, lastActive = 3 \<rparr>"
  have idx: "findIndex (\<lambda>p. p_id p = ''promise_1_a'') (promises afterCreate) = Some 0"
    by code_simp
  have addr: "p_address (promises afterCreate ! 0) = ''0xabc''"
    by code_simp
  have changed: "p_status (promises afterCreate ! 0) \<noteq> Some ''completed''"
    by code_simp
  have owner: "getUser afterCreate (p_address (promises afterCreate ! 0)) = Some ?u"
    by code_simp
  have st: "f_status (noFields\<lparr> f_status := Some ''completed'' \<rparr>) = Some ''completed''"
    by simp
  from updatePromise_applies_outcome[OF idx st _ changed owner, of 2]
  have completed: "\<exists>usr'. getUser (fst (updatePromise afterCreate ''promise_1_a''
                          (Some (noFields\<lparr> f_status := Some ''completed'' \<rparr>)) 2)) ''0xabc'' = Some usr' \<and>
      reputation usr' = 10 \<and> completedPromises usr' = 1 \<and> streak usr' = 1 \<and> level usr' = 1"
    by (auto simp: addr)
  have idx': "findIndex (\<lambda>p. p_id p = ''promise_3_b'') (promises beforeFail) = Some 1"
    by code_simp
  have addr': "p_address (promises beforeFail ! 1) = ''0xabc''"
    by code_simp
  have changed': "p_status (promises beforeFail ! 1) \<noteq> Some ''failed''"
    by code_simp
  have owner': "getUser beforeFail (p_address (promises beforeFail ! 1)) = Some ?v"
    by code_simp
  have st': "f_status (noFields\<lparr> f_status := Some ''failed'' \<rparr>) = Some ''failed''"
    by simp
  from updatePromise_applies_outcome[OF idx' st' _ changed' owner', of 4, unfolded addr']
  have failed: "\<exists>usr'. getUser (fst (updatePromise beforeFail ''promise_3_b''
                          (Some (noFields\<lparr> f_status := Some ''failed'' \<rparr>)) 4)) ''0xabc'' = Some usr' \<and>
      reputation usr' = 5 \<and> failedPromises usr' = 1 \<and> streak usr' = 0 \<and> level usr' = 1"
    by auto
  from completed failed show ?thesis by (rule conjI)
qed

text \<open>
  C2. Let a delete request with the given id be stored, let its target promise be stored and
  let the owner of that promise have a user record. Resolving the request as \<open>approved\<close>
  succeeds, removes every promise carrying the target id from the promises collection (the
  target is no longer stored), sets the owner's \<open>totalPromises\<close> to max(0, totalPromises - 1)
  and leaves the statistics equal to a fresh recomputation over the resulting store.
  Resolving it as \<open>rejected\<close> leaves the promises, the users and the statistics as they
  were.
\<close>

theorem resolve_delete_request:
  assumes found: "findIndex (\<lambda>req. r_id req = requestId) (deleteRequests s) = Some i"
    and target: "find (\<lambda>p. p_id p = promiseId (deleteRequests s ! i)) (promises s) = Some target"
    and owner: "getUser s (p_address target) = Some usr"
  shows "(case updateDeleteRequestStatus s requestId ''approved'' adminAddress now of
            (s', r) \<Rightarrow>
              (\<exists>req. r = Inr req) \<and>
              promises s' = filter (\<lambda>p. p_id p \<noteq> promiseId (deleteRequests s ! i)) (promises s) \<and>
              target \<notin> set (promises s') \<and>
              (\<exists>usr'. getUser s' (p_address target) = Some usr' \<and>
                       totalPromises usr' = max 0 (totalPromises usr - 1)) \<and>
              stats s' = computeStats s' now) \<and>
         (case updateDeleteRequestStatus s requestId ''rejected'' adminAddress now of
            (s', r) \<Rightarrow> promises s' = promises s \<and> users s' = users s \<and> stats s' = stats s)"
proof -
  let ?pid = "promiseId (deleteRequests s ! i)"
  let ?s1 = "s\<lparr> deleteRequests :=
      (deleteRequests s)[i := processed (deleteRequests s ! i) ''approved'' adminAddress now] \<rparr>"
  have t1: "find (\<lambda>p. p_id p = ?pid) (promises ?s1) = Some target"
    using target by simp
  have o1: "getUser ?s1 (p_address target) = Some usr"
    using owner by (simp add: getUser_def)
  have tid: "p_id target = ?pid"
    using find_Some_holds[OF target] by simp
  have "updateDeleteRequestStatus s requestId ''approved'' adminAddress now =
      (updateGlobalStats
        (?s1\<lparr> promises := filter (\<lambda>p. p_id p \<noteq> ?pid) (promises ?s1),
              users := AList.update (toLowerCase (p_address target))
                         (totalUpdate usr (max 0 (totalPromises usr - 1)) now) (users ?s1) \<rparr>) now,
       Inr (processed (deleteRequests s ! i) ''approved'' adminAddress now))"
    by (simp add: updateDeleteRequestStatus_approved[OF found] deletePromise_owner[OF t1 o1])
  then have approved:
    "case updateDeleteRequestStatus s requestId ''approved'' adminAddress now of
            (s', r) \<Rightarrow>
              (\<exists>req. r = Inr req) \<and>
              promises s' = filter (\<lambda>p. p_id p \<noteq> ?pid) (promises s) \<and>
              target \<notin> set (promises s') \<and>
              (\<exists>usr'. getUser s' (p_address target) = Some usr' \<and>
                       totalPromises usr' = max 0 (totalPromises usr - 1)) \<and>
              stats s' = computeStats s' now"
    by (simp add: tid getUser_def update_conv' totalUpdate_eq)
  have "case updateDeleteRequestStatus s requestId ''rejected'' adminAddress now of
            (s', r) \<Rightarrow> promises s' = promises s \<and> users s' = users s \<and> stats s' = stats s"
    by (simp add: updateDeleteRequestStatus_other[OF found])
  with approved show ?thesis by blast
qed

theorem resolve_delete_request_witness:
  "promises (fst (updateDeleteRequestStatus withRequest ''delreq_5_a'' ''approved'' ''0xadmin'' 6)) =
     filter (\<lambda>p. p_id p \<noteq> ''promise_1_a'') (promises withRequest) \<and>
   (\<exists>usr'. getUser (fst (updateDeleteRequestStatus withRequest ''delreq_5_a'' ''approved'' ''0xadmin'' 6))
              ''0xabc'' = Some usr' \<and> totalPromises usr' = 1) \<and>
   promises (fst (updateDeleteRequestStatus withRequest ''delreq_5_a'' ''rejected'' ''0xadmin'' 6)) =
     promises withRequest \<and>
   users (fst (updateDeleteRequestStatus withRequest ''delreq_5_a'' ''rejected'' ''0xadmin'' 6)) =
     users withRequest"
proof -
  let ?target = "\<lparr> p_id = ''promise_1_a'', p_address = ''0xabc'', p_message = Some ''run 5k'',
      p_deadline = Some 100, p_status = Some ''completed'', p_proof = None,
      p_category = Some ''fitness'', p_difficulty = Some ''easy'', p_createdAt = 1,
      p_updatedAt = 2, p_adminAdjustedProgress = None, p_updaterAddress = None \<rparr>"
  let ?usr = "\<lparr> address = ''0xabc'', reputation = 5, completedPromises = 1, failedPromises = 1,
      totalPromises = 2, streak = 0, level = 1, joinedAt = 1, lastActive = 4 \<rparr>"
  have found: "findIndex (\<lambda>req. r_id req = ''delreq_5_a'') (deleteRequests withRequest) = Some 0"
    by code_simp
  have pid: "promiseId (deleteRequests withRequest ! 0) = ''promise_1_a''"
    by code_simp
  have target: "find (\<lambda>p. p_id p = promiseId (deleteRequests withRequest ! 0)) (promises withRequest) =
      Some ?target"
    by code_simp
  have owner: "getUser withRequest (p_address ?target) = Some ?usr"
    by code_simp
  from resolve_delete_request[OF found target owner, where adminAddress = "''0xadmin''" and now = 6]
  show ?thesis
    by (simp add: pid case_prod_beta)
qed

text \<open>
  C3. In every store the service reaches from the empty store, each promise id has at most
  one delete request with status \<open>pending\<close>. When a pending request for the promise id
  exists, \<open>addDeleteRequest\<close> returns it and leaves the store as it is; hence of two
  successive calls for the same promise id the second changes nothing and returns the
  request of the first, and afterwards exactly that one request is pending for the id.
\<close>

theorem one_pending_request_per_promise:
  assumes reach: "s = run (initialStore t0) ops"
    and first: "addDeleteRequest s pid requester1 now1 gid1 = (s1, r1)"
    and second: "addDeleteRequest s1 pid requester2 now2 gid2 = (s2, r2)"
  shows "(\<forall>pid'. length (pendingRequests pid' s) \<le> 1) \<and>
         (\<forall>ex. find (isPendingFor pid) (deleteRequests s) = Some ex \<longrightarrow> s1 = s \<and> r1 = ex) \<and>
         s2 = s1 \<and> r2 = r1 \<and> pendingRequests pid s2 = [r1]"
proof -
  have inv: "onePending s"
    unfolding reach by (rule onePending_run[OF onePending_initialStore])
  have existing: "\<forall>ex. find (isPendingFor pid) (deleteRequests s) = Some ex \<longrightarrow> s1 = s \<and> r1 = ex"
    using first by (auto simp: addDeleteRequest_existing)
  have twice: "s2 = s1 \<and> r2 = r1 \<and> pendingRequests pid s2 = [r1]"
  proof (cases "find (isPendingFor pid) (deleteRequests s)")
    case (Some ex)
    with first have s1: "s1 = s" "r1 = ex"
      by (simp_all add: addDeleteRequest_existing)
    with second Some have s2: "s2 = s" "r2 = ex"
      by (simp_all add: addDeleteRequest_existing)
    have "length (filter (isPendingFor pid) (deleteRequests s)) \<le> 1"
      using inv by (simp add: onePending_def pendingRequests_def)
    from find_filter_single[OF Some this] s1 s2 show ?thesis
      by (simp add: pendingRequests_def)
  next
    case None
    let ?new = "\<lparr> r_id = gid1, promiseId = pid, requesterAddress = requester1,
                  r_status = ''pending'', requestedAt = now1,
                  processedBy = None, processedAt = None \<rparr>"
    from first have s1: "s1 = s\<lparr> deleteRequests := deleteRequests s @ [?new] \<rparr>" "r1 = ?new"
      by (auto simp: addDeleteRequest_new[OF None])
    have "find (isPendingFor pid) (deleteRequests s1) = Some ?new"
      by (simp add: s1(1) find_append_None[OF None] isPendingFor_def)
    with second have s2: "s2 = s1" "r2 = ?new"
      by (simp_all add: addDeleteRequest_existing)
    have "pendingRequests pid s1 = [?new]"
      by (simp add: pendingRequests_def s1(1) find_None_filter[OF None] isPendingFor_def)
    with s1 s2 show ?thesis by simp
  qed
  from inv existing twice show ?thesis
    unfolding onePending_def by blast
qed

theorem one_pending_request_per_promise_witness:
  "pendingRequests ''promise_1_a''
     (fst (addDeleteRequest
        (fst (addDeleteRequest (run (initialStore 0) scenario) ''promise_1_a'' ''0xabc'' 5 ''delreq_5_a''))
        ''promise_1_a'' ''0xabc'' 6 ''delreq_6_b'')) =
   [\<lparr> r_id = ''delreq_5_a'', promiseId = ''promise_1_a'', requesterAddress = ''0xabc'',
      r_status = ''pending'', requestedAt = 5, processedBy = None, processedAt = None \<rparr>]"
proof -
  have r1: "snd (addDeleteRequest (run (initialStore 0) scenario) ''promise_1_a'' ''0xabc'' 5 ''delreq_5_a'') =
        \<lparr> r_id = ''delreq_5_a'', promiseId = ''promise_1_a'', requesterAddress = ''0xabc'',
          r_status = ''pending'', requestedAt = 5, processedBy = None, processedAt = None \<rparr>"
    by code_simp
  from one_pending_request_per_promise[OF refl surjective_pairing surjective_pairing,
      of 0 scenario "''promise_1_a''" "''0xabc''" 5 "''delreq_5_a''" "''0xabc''" 6 "''delreq_6_b''"]
  have "pendingRequests ''promise_1_a''
     (fst (addDeleteRequest
        (fst (addDeleteRequest (run (initialStore 0) scenario) ''promise_1_a'' ''0xabc'' 5 ''delreq_5_a''))
        ''promise_1_a'' ''0xabc'' 6 ''delreq_6_b'')) =
     [snd (addDeleteRequest (run (initialStore 0) scenario) ''promise_1_a'' ''0xabc'' 5 ''delreq_5_a'')]"
    by blast
  then show ?thesis by (simp only: r1)
qed

text \<open>
  C5 (as the code has it). With file reads and writes succeeding, an error raised by
  \<open>createPromise\<close> or \<open>deletePromise\<close> leaves the whole store as it was (\<open>addDeleteRequest\<close>
  raises none). \<open>updatePromise\<close> leaves the store as it was when the promise id is unknown;
  its only other error is the \<^verbatim>\<open>TypeError\<close> of a \<^verbatim>\<open>null\<close> body, raised after the
  promise has been written back with its new \<open>updatedAt\<close>. \<open>updateDeleteRequestStatus\<close>
  leaves the store as it was when the request id is unknown; its only other error is raised
  by an approval whose target promise is not stored, and then the request has already been
  written back with its new status, \<open>processedBy\<close> and \<open>processedAt\<close>. In both cases nothing
  else is changed. The second theorem after it evaluates such an approval: the call raises
  and the stored request has gone from \<open>pending\<close> to \<open>approved\<close>.
\<close>

theorem failure_leaves_store_or_one_write:
  "(snd (createPromise s promiseData now gid) = Inl e \<longrightarrow>
      fst (createPromise s promiseData now gid) = s) \<and>
   (snd (deletePromise s pid now) = Inl e \<longrightarrow>
      fst (deletePromise s pid now) = s) \<and>
   (snd (updatePromise s pid updates now) = Inl e \<longrightarrow>
      (e = PromiseNotFound pid \<and> fst (updatePromise s pid updates now) = s) \<or>
      (\<exists>i. findIndex (\<lambda>p. p_id p = pid) (promises s) = Some i \<and> updates = None \<and>
           e = TypeError \<and>
           fst (updatePromise s pid updates now) =
             s\<lparr> promises := (promises s)[i := (promises s ! i)\<lparr> p_updatedAt := now \<rparr>] \<rparr>)) \<and>
   (snd (updateDeleteRequestStatus s requestId status adminAddress now) = Inl e \<longrightarrow>
      (e = DeleteRequestNotFound requestId \<and>
       fst (updateDeleteRequestStatus s requestId status adminAddress now) = s) \<or>
      (\<exists>i. findIndex (\<lambda>req. r_id req = requestId) (deleteRequests s) = Some i \<and>
           status = ''approved'' \<and>
           e = PromiseNotFound (promiseId (deleteRequests s ! i)) \<and>
           fst (updateDeleteRequestStatus s requestId status adminAddress now) =
             s\<lparr> deleteRequests := (deleteRequests s)
                  [i := processed (deleteRequests s ! i) ''approved'' adminAddress now] \<rparr>))"
proof -
  have "snd (createPromise s promiseData now gid) = Inl e \<longrightarrow>
      fst (createPromise s promiseData now gid) = s"
    using createPromise_Inl[of s promiseData now gid e] by blast
  moreover have "snd (deletePromise s pid now) = Inl e \<longrightarrow>
      fst (deletePromise s pid now) = s"
    using deletePromise_Inl[of s pid now e] by blast
  moreover note impI[OF updatePromise_Inl[of s pid updates now e]]
    impI[OF updateDeleteRequestStatus_Inl[of s requestId status adminAddress now e]]
  ultimately show ?thesis by (intro conjI)
qed

theorem failure_leaves_store_or_one_write_witness:
  "fst (updatePromise afterCreate ''ghost'' (Some noFields) 2) = afterCreate \<and>
   fst (updateDeleteRequestStatus afterCreate ''delreq_0_x'' ''approved'' ''0xadmin'' 2) = afterCreate \<and>
   fst (updatePromise afterCreate ''promise_1_a'' None 2) =
     afterCreate\<lparr> promises :=
       (promises afterCreate)[0 := (promises afterCreate ! 0)\<lparr> p_updatedAt := 2 \<rparr>] \<rparr>"
proof -
  have u: "snd (updatePromise afterCreate ''ghost'' (Some noFields) 2) = Inl (PromiseNotFound ''ghost'')"
    by code_simp
  have r: "snd (updateDeleteRequestStatus afterCreate ''delreq_0_x'' ''approved'' ''0xadmin'' 2) =
      Inl (DeleteRequestNotFound ''delreq_0_x'')"
    by code_simp
  have n: "snd (updatePromise afterCreate ''promise_1_a'' None 2) = Inl TypeError"
    by code_simp
  have idx: "findIndex (\<lambda>p. p_id p = ''promise_1_a'') (promises afterCreate) = Some 0"
    by code_simp
  from failure_leaves_store_or_one_write
         [where s = afterCreate and pid = "''ghost''" and updates = "Some noFields" and now = 2
            and e = "PromiseNotFound ''ghost''"] u
  have "fst (updatePromise afterCreate ''ghost'' (Some noFields) 2) = afterCreate"
    by auto
  moreover
  from failure_leaves_store_or_one_write
         [where s = afterCreate and requestId = "''delreq_0_x''" and status = "''approved''"
            and adminAddress = "''0xadmin''" and now = 2
            and e = "DeleteRequestNotFound ''delreq_0_x''"] r
  have "fst (updateDeleteRequestStatus afterCreate ''delreq_0_x'' ''approved'' ''0xadmin'' 2) =
      afterCreate"
    by auto
  moreover
  from failure_leaves_store_or_one_write
         [where s = afterCreate and pid = "''promise_1_a''" and updates = None and now = 2
            and e = TypeError] n
  have "fst (updatePromise afterCreate ''promise_1_a'' None 2) =
     afterCreate\<lparr> promises :=
       (promises afterCreate)[0 := (promises afterCreate ! 0)\<lparr> p_updatedAt := 2 \<rparr>] \<rparr>"
    by (auto simp: idx)
  ultimately show ?thesis by simp
qed

theorem approval_of_missing_promise_is_partial:
  "snd (updateDeleteRequestStatus orphanRequest ''delreq_1_a'' ''approved'' ''0xadmin'' 2) =
     Inl (PromiseNotFound ''ghost'') \<and>
   map r_status (deleteRequests orphanRequest) = [''pending''] \<and>
   map r_status (deleteRequests
     (fst (updateDeleteRequestStatus orphanRequest ''delreq_1_a'' ''approved'' ''0xadmin'' 2))) =
     [''approved'']"
  by code_simp

text \<open>
  C6 (as the code has it). After a successful \<open>createPromise\<close> the promises collection is
  the old one with the new promise appended; the status of the new promise is the one the
  caller sent (the code sets none), so it is \<open>active\<close> only when the caller says so. When
  the lower-cased address is not an \<open>inheritedName\<close>, the owner's \<open>totalPromises\<close> is one
  more than before, and when the owner had no user record, the record now stored is the
  zero-valued one (reputation 0, no completed or failed promises, streak 0, level 1) with
  \<open>totalPromises\<close> 1. For the two inherited names the statement says nothing about the
  owner's record. The second theorem after it evaluates two successful calls: one sent with
  status \<open>completed\<close>, one without status.
\<close>

theorem createPromise_success:
  assumes "createPromise s promiseData now gid = (s', Inr np)"
  shows "promises s' = promises s @ [np] \<and> p_status np = f_status promiseData \<and>
     (\<exists>addr. f_address promiseData = Some addr \<and> p_address np = addr \<and>
        (\<not> inheritedName (toLowerCase addr) \<longrightarrow>
           (\<exists>usr'. getUser s' addr = Some usr' \<and>
              (case getUser s addr of
                 Some usr \<Rightarrow> totalPromises usr' = totalPromises usr + 1
               | None \<Rightarrow>
                   usr' = \<lparr> address = addr, reputation = 0, completedPromises = 0,
                            failedPromises = 0, totalPromises = 1, streak = 0, level = 1,
                            joinedAt = now, lastActive = now \<rparr>))))"
proof -
  from assms obtain addr where addr: "f_address promiseData = Some addr"
    by (rule createPromise_Inr)
  let ?usr' = "totalUpdate (ownerRecord s addr now) (totalPromises (ownerRecord s addr now) + 1) now"
  from assms have np: "np = newPromise promiseData addr now gid"
    and s': "s' = updateGlobalStats
        (s\<lparr> promises := promises s @ [newPromise promiseData addr now gid],
            users := AList.update (toLowerCase addr) ?usr' (users s) \<rparr>) now"
    by (auto simp: createPromise_present[OF addr])
  have "promises s' = promises s @ [np]" by (simp add: s' np)
  moreover have "p_status np = f_status promiseData" "p_address np = addr"
    by (simp_all add: np newPromise_def)
  moreover have "getUser s' addr = Some ?usr'"
    by (simp add: s' getUser_def update_conv')
  moreover have "case getUser s addr of
           Some usr \<Rightarrow> totalPromises ?usr' = totalPromises usr + 1
         | None \<Rightarrow>
             ?usr' = \<lparr> address = addr, reputation = 0, completedPromises = 0, failedPromises = 0,
                      totalPromises = 1, streak = 0, level = 1, joinedAt = now,
                      lastActive = now \<rparr>"
    by (simp add: ownerRecord_def totalUpdate_eq newUser_def split: option.splits)
  ultimately show ?thesis using addr by blast
qed

theorem createPromise_success_witness:
  "map p_status (promises (fst (createPromise afterCreate promiseData2 2 ''promise_2_c''))) =
     [Some ''active'', Some ''completed''] \<and>
   getUser (fst (createPromise afterCreate promiseData2 2 ''promise_2_c'')) ''0xdef'' =
     Some \<lparr> address = ''0xdef'', reputation = 0, completedPromises = 0, failedPromises = 0,
            totalPromises = 1, streak = 0, level = 1, joinedAt = 2, lastActive = 2 \<rparr>"
proof -
  let ?r = "createPromise afterCreate promiseData2 2 ''promise_2_c''"
  have ok: "?r = (fst ?r, Inr (newPromise promiseData2 ''0xdef'' 2 ''promise_2_c''))"
    by code_simp
  have old: "map p_status (promises afterCreate) = [Some ''active'']"
    by code_simp
  have fresh: "getUser afterCreate ''0xdef'' = None"
    by code_simp
  have plain: "\<not> inheritedName (toLowerCase ''0xdef'')"
    by code_simp
  have addr: "f_address promiseData2 = Some ''0xdef''" "f_status promiseData2 = Some ''completed''"
    by (simp_all add: promiseData2_def)
  from createPromise_success[OF ok] plain show ?thesis
    by (simp add: old fresh addr newPromise_def)
qed

theorem createPromise_status_from_caller:
  "snd (createPromise afterCreate promiseData2 2 ''promise_2_c'') =
     Inr (newPromise promiseData2 ''0xdef'' 2 ''promise_2_c'') \<and>
   p_status (last (promises (fst (createPromise afterCreate promiseData2 2 ''promise_2_c'')))) =
     Some ''completed'' \<and>
   p_status (last (promises (fst (createPromise afterCreate
       (promiseData2\<lparr> f_status := None \<rparr>) 2 ''promise_2_c'')))) = None"
  by code_simp

text \<open>
  C7 (as the code has it). \<open>createPromise\<close> validates nothing. It fails exactly when the
  address key is absent, with the \<^verbatim>\<open>TypeError\<close> of \<open>createUser\<close> and with the store
  untouched. Whenever the address key is present, be it the empty string, and whatever the
  message is, it succeeds and appends the promise with the address and the message as sent.
  The second theorem after it evaluates the call with an empty address and an empty message
  on the empty store: it succeeds, one promise and one user (under the empty key) are stored.
\<close>

theorem createPromise_fails_only_without_address:
  "(f_address promiseData = None \<longrightarrow>
      createPromise s promiseData now gid = (s, Inl TypeError)) \<and>
   (f_address promiseData \<noteq> None \<longrightarrow>
      (\<exists>np. snd (createPromise s promiseData now gid) = Inr np \<and>
            promises (fst (createPromise s promiseData now gid)) = promises s @ [np] \<and>
            Some (p_address np) = f_address promiseData \<and>
            p_message np = f_message promiseData))"
proof (cases "f_address promiseData")
  case None
  then show ?thesis by (simp add: createPromise_absent)
next
  case (Some addr)
  then show ?thesis
    by (simp add: createPromise_present[OF Some] newPromise_def)
qed

theorem createPromise_fails_only_without_address_witness:
  "createPromise afterCreate (promiseData1\<lparr> f_address := None \<rparr>) 2 ''promise_2_c'' =
     (afterCreate, Inl TypeError) \<and>
   (\<exists>np. snd (createPromise afterCreate emptyFields 2 ''promise_2_c'') = Inr np \<and>
         promises (fst (createPromise afterCreate emptyFields 2 ''promise_2_c'')) =
           promises afterCreate @ [np] \<and>
         p_address np = [] \<and> p_message np = Some [])"
proof -
  have "createPromise afterCreate (promiseData1\<lparr> f_address := None \<rparr>) 2 ''promise_2_c'' =
     (afterCreate, Inl TypeError)"
    using createPromise_fails_only_without_address
            [of "promiseData1\<lparr> f_address := None \<rparr>" afterCreate 2 "''promise_2_c''"]
    by simp
  moreover have "\<exists>np. snd (createPromise afterCreate emptyFields 2 ''promise_2_c'') = Inr np \<and>
         promises (fst (createPromise afterCreate emptyFields 2 ''promise_2_c'')) =
           promises afterCreate @ [np] \<and>
         p_address np = [] \<and> p_message np = Some []"
    using createPromise_fails_only_without_address
            [of emptyFields afterCreate 2 "''promise_2_c''"]
    by (auto simp: emptyFields_def)
  ultimately show ?thesis by simp
qed

theorem createPromise_accepts_empty_input:
  "snd (createPromise (initialStore 0) emptyFields 1 ''promise_1_a'') =
     Inr (newPromise emptyFields [] 1 ''promise_1_a'') \<and>
   promises (fst (createPromise (initialStore 0) emptyFields 1 ''promise_1_a'')) =
     [newPromise emptyFields [] 1 ''promise_1_a''] \<and>
   map fst (users (fst (createPromise (initialStore 0) emptyFields 1 ''promise_1_a''))) = [[]] \<and>
   promises (initialStore 0) = [] \<and> users (initialStore 0) = []"
  by code_simp

text \<open>
  C8 (as the code has it). For a stored user, \<open>updateUserReputation\<close> with any outcome
  leaves the user's \<open>address\<close>, \<open>totalPromises\<close> and \<open>joinedAt\<close> as they were and sets
  \<open>lastActive\<close> to the current time (\<open>updateUser\<close> always writes it); the record of every
  other key, the order of the keys, and the promises, delete requests, sessions and
  statistics are unchanged. The second theorem after it shows \<open>lastActive\<close> changing from 1
  to 2.
\<close>

theorem reputation_application_frame:
  assumes "getUser s addr = Some usr"
  shows "\<exists>usr'. getUser (updateUserReputation s addr status now) addr = Some usr' \<and>
     address usr' = address usr \<and> totalPromises usr' = totalPromises usr \<and>
     joinedAt usr' = joinedAt usr \<and> lastActive usr' = now \<and>
     (\<forall>k. k \<noteq> toLowerCase addr \<longrightarrow>
        map_of (users (updateUserReputation s addr status now)) k = map_of (users s) k) \<and>
     map fst (users (updateUserReputation s addr status now)) = map fst (users s) \<and>
     promises (updateUserReputation s addr status now) = promises s \<and>
     deleteRequests (updateUserReputation s addr status now) = deleteRequests s \<and>
     sessions (updateUserReputation s addr status now) = sessions s \<and>
     stats (updateUserReputation s addr status now) = stats s"
proof -
  let ?usr' = "applyUpdates usr (reputationUpdates usr status) now"
  have stored: "map_of (users s) (toLowerCase addr) = Some usr"
    using assms by (simp add: getUser_def)
  have eq: "updateUserReputation s addr status now =
      s\<lparr> users := AList.update (toLowerCase addr) ?usr' (users s) \<rparr>"
    by (rule updateUserReputation_found[OF assms])
  have "getUser (updateUserReputation s addr status now) addr = Some ?usr'"
    by (simp add: eq getUser_def update_conv')
  moreover have "\<forall>k. k \<noteq> toLowerCase addr \<longrightarrow>
        map_of (users (updateUserReputation s addr status now)) k = map_of (users s) k"
    by (simp add: eq update_conv')
  moreover have "map fst (users (updateUserReputation s addr status now)) = map fst (users s)"
    by (simp add: eq keys_AList_update_present[OF stored])
  ultimately show ?thesis
    by (intro exI[of _ ?usr']) (simp add: reputationUpdates_frame updateUserReputation_frame)
qed

theorem reputation_application_frame_witness:
  "\<exists>usr'. getUser (updateUserReputation afterCreate ''0xabc'' ''completed'' 2) ''0xabc'' = Some usr' \<and>
     address usr' = ''0xabc'' \<and> totalPromises usr' = 1 \<and> joinedAt usr' = 1 \<and> lastActive usr' = 2"
proof -
  have "getUser afterCreate ''0xabc'' =
      Some \<lparr> address = ''0xabc'', reputation = 0, completedPromises = 0, failedPromises = 0,
             totalPromises = 1, streak = 0, level = 1, joinedAt = 1, lastActive = 1 \<rparr>"
    by code_simp
  from reputation_application_frame[OF this, of "''completed''" 2]
  show ?thesis by auto
qed

theorem reputation_application_touches_lastActive:
  "map_option lastActive (getUser afterCreate ''0xabc'') = Some 1 \<and>
   map_option lastActive (getUser (updateUserReputation afterCreate ''0xabc'' ''completed'' 2) ''0xabc'')
     = Some 2"
  by code_simp

text \<open>
  C9 (as the code has it). After a recomputation of the statistics, \<open>topPerformer\<close> is none
  when no stored user has a positive reputation (in particular when there are no users).
  When some user has a positive reputation, \<open>topPerformer\<close> is taken from the first user in
  scan order among those of maximum reputation: every user has at most that reputation and
  every earlier user has strictly less; the value is that user's address, or none when that
  address is the empty string. The two theorems after it evaluate the recomputation on the
  store with one fresh user of reputation 0, where users exist and \<open>topPerformer\<close> is none,
  and on the scenario and the empty store.
\<close>

theorem topPerformer_first_positive_maximum:
  "((\<forall>usr \<in> set (map snd (users s)). reputation usr \<le> 0) \<longrightarrow>
      topPerformer (stats (updateGlobalStats s now)) = None) \<and>
   ((\<exists>usr \<in> set (map snd (users s)). 0 < reputation usr) \<longrightarrow>
      (\<exists>i < length (users s).
         (\<forall>j < length (users s). reputation (snd (users s ! j)) \<le> reputation (snd (users s ! i))) \<and>
         (\<forall>j < i. reputation (snd (users s ! j)) < reputation (snd (users s ! i))) \<and>
         0 < reputation (snd (users s ! i)) \<and>
         topPerformer (stats (updateGlobalStats s now)) =
           (if address (snd (users s ! i)) = [] then None
            else Some (address (snd (users s ! i))))))"
proof -
  let ?us = "map snd (users s)"
  have tp: "topPerformer (stats (updateGlobalStats s now)) = topPerformerOf ?us"
    by (simp add: computeStats_def Let_def)
  have low: "topPerformer (stats (updateGlobalStats s now)) = None"
    if "\<forall>usr \<in> set ?us. reputation usr \<le> 0"
  proof -
    have "topUser ?us = None"
      using topUser_spec[of ?us] that by (metis not_less nth_mem)
    then show ?thesis by (simp only: tp topPerformerOf_def option.case)
  qed
  have high: "\<exists>i < length (users s).
         (\<forall>j < length (users s). reputation (snd (users s ! j)) \<le> reputation (snd (users s ! i))) \<and>
         (\<forall>j < i. reputation (snd (users s ! j)) < reputation (snd (users s ! i))) \<and>
         0 < reputation (snd (users s ! i)) \<and>
         topPerformer (stats (updateGlobalStats s now)) =
           (if address (snd (users s ! i)) = [] then None
            else Some (address (snd (users s ! i))))"
    if "\<exists>usr \<in> set ?us. 0 < reputation usr"
  proof -
    from topUser_spec[of ?us] that
    obtain i where i: "i < length ?us" and top: "topUser ?us = Some (?us ! i)"
      and pos: "0 < reputation (?us ! i)"
      and maxi: "\<forall>j < length ?us. reputation (?us ! j) \<le> reputation (?us ! i)"
      and first: "\<forall>j < i. reputation (?us ! j) < reputation (?us ! i)"
      by (metis not_less)
    have len: "i < length (users s)" using i by simp
    have nth: "\<And>j. j < length (users s) \<Longrightarrow> ?us ! j = snd (users s ! j)"
      by simp
    have m: "\<forall>j < length (users s). reputation (snd (users s ! j)) \<le> reputation (snd (users s ! i))"
      using maxi len by (simp add: nth)
    have f: "\<forall>j < i. reputation (snd (users s ! j)) < reputation (snd (users s ! i))"
      using first len by (simp add: nth)
    have p: "0 < reputation (snd (users s ! i))"
      using pos len by (simp add: nth)
    have "topPerformerOf ?us =
           (if address (snd (users s ! i)) = [] then None
            else Some (address (snd (users s ! i))))"
      using len by (simp only: topPerformerOf_def top option.case nth)
    with tp len m f p show ?thesis by metis
  qed
  from low high show ?thesis by blast
qed

theorem topPerformer_none_with_users:
  "users afterCreate \<noteq> [] \<and> topPerformer (stats (updateGlobalStats afterCreate 2)) = None"
  by code_simp

theorem topPerformer_first_positive_maximum_witness:
  "topPerformer (stats (updateGlobalStats (run (initialStore 0) scenario) 9)) = Some ''0xabc'' \<and>
   topPerformer (stats (updateGlobalStats (initialStore 0) 9)) = None"
proof -
  have us: "users (run (initialStore 0) scenario) =
      [(''0xabc'', \<lparr> address = ''0xabc'', reputation = 5, completedPromises = 1,
          failedPromises = 1, totalPromises = 2, streak = 0, level = 1, joinedAt = 1,
          lastActive = 4 \<rparr>)]"
    by code_simp
  have none: "users (initialStore 0) = []"
    by code_simp
  from topPerformer_first_positive_maximum[of "run (initialStore 0) scenario" 9]
  have "topPerformer (stats (updateGlobalStats (run (initialStore 0) scenario) 9)) = Some ''0xabc''"
    by (simp add: us)
  moreover from topPerformer_first_positive_maximum[of "initialStore 0" 9]
  have "topPerformer (stats (updateGlobalStats (initialStore 0) 9)) = None"
    by (simp add: none)
  ultimately show ?thesis by simp
qed

text \<open>
  C10. For a call of \<open>createPromise\<close> whose data has an address, the stored promise takes
  \<open>id\<close>, \<open>createdAt\<close> and \<open>updatedAt\<close> from the caller's data when the key is there and
  the generated value (the generated id, the current time) only when it is absent; the
  status is the caller's. A second call with the same caller-chosen id adds a second promise
  with that id: the number of stored promises with the id grows by two over both calls.
\<close>

theorem createPromise_caller_fields_win:
  assumes "f_address promiseData = Some addr"
  shows "(\<exists>np. snd (createPromise s promiseData now gid) = Inr np \<and>
            promises (fst (createPromise s promiseData now gid)) = promises s @ [np] \<and>
            p_id np = (case f_id promiseData of Some i \<Rightarrow> i | None \<Rightarrow> gid) \<and>
            p_createdAt np = (case f_createdAt promiseData of Some c \<Rightarrow> c | None \<Rightarrow> now) \<and>
            p_updatedAt np = (case f_updatedAt promiseData of Some u \<Rightarrow> u | None \<Rightarrow> now) \<and>
            p_status np = f_status promiseData) \<and>
         (\<forall>i promiseData' addr' now' gid'.
            f_id promiseData = Some i \<and> f_id promiseData' = Some i \<and>
            f_address promiseData' = Some addr' \<longrightarrow>
            length (filter (\<lambda>p. p_id p = i)
              (promises (fst (createPromise (fst (createPromise s promiseData now gid))
                 promiseData' now' gid')))) =
            length (filter (\<lambda>p. p_id p = i) (promises s)) + 2)"
proof -
  have one: "\<exists>np. snd (createPromise s promiseData now gid) = Inr np \<and>
            promises (fst (createPromise s promiseData now gid)) = promises s @ [np] \<and>
            p_id np = (case f_id promiseData of Some i \<Rightarrow> i | None \<Rightarrow> gid) \<and>
            p_createdAt np = (case f_createdAt promiseData of Some c \<Rightarrow> c | None \<Rightarrow> now) \<and>
            p_updatedAt np = (case f_updatedAt promiseData of Some u \<Rightarrow> u | None \<Rightarrow> now) \<and>
            p_status np = f_status promiseData"
    by (simp add: createPromise_present[OF assms] newPromise_def spread_def)
  have two: "length (filter (\<lambda>p. p_id p = i)
              (promises (fst (createPromise (fst (createPromise s promiseData now gid))
                 promiseData' now' gid')))) =
            length (filter (\<lambda>p. p_id p = i) (promises s)) + 2"
    if "f_id promiseData = Some i" "f_id promiseData' = Some i" "f_address promiseData' = Some addr'"
    for i promiseData' addr' now' gid'
    using that
    by (simp add: createPromise_present[OF assms] createPromise_present[OF that(3)]
          newPromise_def spread_def)
  from one two show ?thesis by blast
qed

theorem createPromise_caller_fields_win_witness:
  "map p_id (promises (fst (createPromise
       (fst (createPromise (initialStore 0) (promiseData1\<lparr> f_id := Some ''mine'' \<rparr>) 1 ''promise_1_a''))
       (promiseData2\<lparr> f_id := Some ''mine'', f_createdAt := Some 7 \<rparr>) 2 ''promise_2_c''))) =
     [''mine'', ''mine''] \<and>
   length (filter (\<lambda>p. p_id p = ''mine'') (promises (fst (createPromise
       (fst (createPromise (initialStore 0) (promiseData1\<lparr> f_id := Some ''mine'' \<rparr>) 1 ''promise_1_a''))
       (promiseData2\<lparr> f_id := Some ''mine'', f_createdAt := Some 7 \<rparr>) 2 ''promise_2_c'')))) = 2"
proof -
  have a: "f_address (promiseData1\<lparr> f_id := Some ''mine'' \<rparr>) = Some ''0xabc''"
    by (simp add: promiseData1_def)
  have ids: "map p_id (promises (fst (createPromise
       (fst (createPromise (initialStore 0) (promiseData1\<lparr> f_id := Some ''mine'' \<rparr>) 1 ''promise_1_a''))
       (promiseData2\<lparr> f_id := Some ''mine'', f_createdAt := Some 7 \<rparr>) 2 ''promise_2_c''))) =
     [''mine'', ''mine'']"
    by code_simp
  have empty: "promises (initialStore 0) = []"
    by code_simp
  from createPromise_caller_fields_win[OF a, of "initialStore 0" 1 "''promise_1_a''"]
  have "length (filter (\<lambda>p. p_id p = ''mine'') (promises (fst (createPromise
       (fst (createPromise (initialStore 0) (promiseData1\<lparr> f_id := Some ''mine'' \<rparr>) 1 ''promise_1_a''))
       (promiseData2\<lparr> f_id := Some ''mine'', f_createdAt := Some 7 \<rparr>) 2 ''promise_2_c'')))) =
     length (filter (\<lambda>p. p_id p = ''mine'') (promises (initialStore 0))) + 2"
    by (simp add: promiseData2_def promiseData1_def)
  with ids show ?thesis by (simp add: empty)
qed

end
